theory Spec2Isabelle
  imports Main "HOL-Library.Word"
begin

section \<open>The emulated CCID card (hw/ccid-card-emulated.c)\<close>

text \<open>
  A shallow embedding of the emulated smart-card device.  Every function of the C file
  takes the device state and returns the new state together with the list of the
  externally visible actions it performed, in program order: mutex operations, queue
  operations, calls to the external collaborators (libcacard, the ccid bus, the pipe),
  debug output and \<open>free\<close>.  A failed \<open>assert\<close> and a dereferenced null pointer are
  error results.
\<close>

subsection \<open>Machine types and constants\<close>

type_synonym u8 = "8 word"
type_synonym u32 = "32 word"
type_synonym u64 = "64 word"

text \<open>A C \<open>int\<close>: 32 bits, read as two's complement with \<open>sint\<close>.\<close>
type_synonym c_int = "32 word"

text \<open>A \<open>VReader *\<close> is the identity of a reader object; the null pointer is \<open>None\<close>.\<close>
type_synonym VReader = nat

definition EMUL_READER_INSERT :: u32 where "EMUL_READER_INSERT = 0"
definition EMUL_READER_REMOVE :: u32 where "EMUL_READER_REMOVE = 1"
definition EMUL_CARD_INSERT :: u32 where "EMUL_CARD_INSERT = 2"
definition EMUL_CARD_REMOVE :: u32 where "EMUL_CARD_REMOVE = 3"
definition EMUL_GUEST_APDU :: u32 where "EMUL_GUEST_APDU = 4"
definition EMUL_RESPONSE_APDU :: u32 where "EMUL_RESPONSE_APDU = 5"
definition EMUL_ERROR :: u32 where "EMUL_ERROR = 6"

definition MAX_ATR_SIZE :: nat where "MAX_ATR_SIZE = 40"
definition APDU_BUF_SIZE :: nat where "APDU_BUF_SIZE = 270"

definition emul_event_to_string :: "u32 \<Rightarrow> string" where
  "emul_event_to_string emul_event =
     (if emul_event = EMUL_READER_INSERT then ''EMUL_READER_INSERT''
      else if emul_event = EMUL_READER_REMOVE then ''EMUL_READER_REMOVE''
      else if emul_event = EMUL_CARD_INSERT then ''EMUL_CARD_INSERT''
      else if emul_event = EMUL_CARD_REMOVE then ''EMUL_CARD_REMOVE''
      else if emul_event = EMUL_GUEST_APDU then ''EMUL_GUEST_APDU''
      else if emul_event = EMUL_RESPONSE_APDU then ''EMUL_RESPONSE_APDU''
      else if emul_event = EMUL_ERROR then ''EMUL_ERROR''
      else ''UNKNOWN'')"

subsection \<open>Event records\<close>

text \<open>
  \<open>EmulEvent\<close> is a union of three structs that all start with the \<open>type\<close> tag:
  \<open>p.gen\<close>, \<open>p.error\<close> and \<open>p.data\<close> (a length and a flexible array of bytes).  A record
  is built through exactly one of them, which is the constructor here.
\<close>

datatype EmulEvent =
    Gen u32
  | Error u32 u64
  | Data u32 u32 "u8 list"

text \<open>\<open>event->p.gen.type\<close>: the tag is the common first member of all three structs.\<close>
fun ev_type :: "EmulEvent \<Rightarrow> u32" where
  "ev_type (Gen t) = t"
| "ev_type (Error t c) = t"
| "ev_type (Data t l d) = t"

text \<open>
  \<open>event->p.data.len\<close>, \<open>event->p.data.data\<close> and \<open>event->p.error.code\<close>.  Read on a record
  that was built through another struct of the union, they are memory that \<open>malloc\<close> left
  uninitialised; no push function of the file builds a record that is read that way,
  and the embedding reads zero and no bytes there.
\<close>
fun ev_len :: "EmulEvent \<Rightarrow> u32" where
  "ev_len (Data t l d) = l"
| "ev_len (Gen t) = 0"
| "ev_len (Error t c) = 0"

fun ev_data :: "EmulEvent \<Rightarrow> u8 list" where
  "ev_data (Data t l d) = d"
| "ev_data (Gen t) = []"
| "ev_data (Error t c) = []"

fun ev_code :: "EmulEvent \<Rightarrow> u64" where
  "ev_code (Error t c) = c"
| "ev_code (Gen t) = 0"
| "ev_code (Data t l d) = 0"

subsection \<open>Actions\<close>

datatype mutex = Event_list_mutex | Vreader_mutex | Handle_apdu_mutex | Apdu_thread_quit_mutex

datatype cond = Handle_apdu_cond | Apdu_thread_quit_cond

datatype queue = Event_list | Guest_apdu_list

datatype thread_fn = Event_thread | Handle_apdu_thread

text \<open>Notifications of libcacard (\<open>vevent.h\<close>); \<open>VEVENT_OTHER\<close> is any other value of the enum.\<close>
datatype VEventType =
    VEVENT_READER_INSERT | VEVENT_READER_REMOVE | VEVENT_CARD_INSERT | VEVENT_CARD_REMOVE
  | VEVENT_LAST | VEVENT_OTHER

record VEvent =
  vtype :: VEventType
  vreader :: "VReader option"

datatype action =
    Lock mutex
  | Unlock mutex
  | Cond_wait cond mutex
  | Cond_signal cond
  | Insert_tail queue EmulEvent
  | Remove_head queue EmulEvent
  | Queue_init queue
  | Write_pipe c_int
  | Printf string
  | Free EmulEvent
  | Xfr_bytes VReader "u8 list" u32 c_int
  | Power_on "VReader option" c_int
  | Vreader_reference "VReader option"
  | Vreader_free "VReader option"
  | Vevent_delete VEvent
  | Send_apdu_to_guest "u8 list" u32
  | Ccid_attach
  | Ccid_detach
  | Card_inserted
  | Card_removed
  | Card_error u64
  | Pipe_create
  | Vcard_emul_options string
  | Vcard_emul_init "nat option"
  | Thread_create thread_fn

subsection \<open>Device state\<close>

text \<open>
  The pipe behind \<open>card->pipe\<close>: both ends are non-blocking (\<open>init_pipe_signaling\<close>), so
  a write of one byte succeeds while the pipe has room and fails when it is full, and
  a read succeeds while a byte is pending.
\<close>
record pipe_obj =
  pending :: nat
  capacity :: nat

record EmulatedState =
  debug :: u8
  backend :: "string option"
  cert1 :: "string option"
  cert2 :: "string option"
  cert3 :: "string option"
  db :: "string option"
  atr :: "u8 list"
  atr_length :: u8
  event_list :: "EmulEvent list"
  reader :: "VReader option"
  guest_apdu_list :: "EmulEvent list"
  pipe :: pipe_obj
  quit_apdu_thread :: c_int

text \<open>
  \<open>DPRINTF(card, lvl, fmt, ...)\<close> prints when \<open>lvl <= card->debug\<close>.  A \<open>Printf\<close> action, of
  \<open>DPRINTF\<close> or of a plain \<open>printf\<close>, carries the format string up to its first newline;
  the arguments are not rendered, but for the event name in \<open>pipe_read\<close>.
\<close>
definition DPRINTF :: "EmulatedState \<Rightarrow> nat \<Rightarrow> string \<Rightarrow> action list" where
  "DPRINTF crd lvl fmt = (if lvl \<le> unat (debug crd) then [Printf fmt] else [])"

text \<open>\<open>write(card->pipe[1], card, 1)\<close>: the new pipe and the value returned.\<close>
definition pipe_write :: "pipe_obj \<Rightarrow> pipe_obj \<times> c_int" where
  "pipe_write p =
     (if pending p < capacity p then (p\<lparr>pending := pending p + 1\<rparr>, 1) else (p, - 1))"

text \<open>
  The loop \<open>do { len = read(card->pipe[0], &dummy, 1); } while (len == 1)\<close> reads until the
  pipe is empty.
\<close>
definition pipe_drain :: "pipe_obj \<Rightarrow> pipe_obj" where
  "pipe_drain p = p\<lparr>pending := 0\<rparr>"

text \<open>\<open>memcpy(dst, src, n)\<close> on byte arrays held as lists.\<close>
definition memcpy :: "u8 list \<Rightarrow> u8 list \<Rightarrow> nat \<Rightarrow> u8 list" where
  "memcpy dst src n = take n src @ drop n dst"

subsection \<open>The guest-facing entry points\<close>

definition emulated_apdu_from_guest ::
  "EmulatedState \<Rightarrow> u8 list \<Rightarrow> u32 \<Rightarrow> EmulatedState \<times> action list" where
  "emulated_apdu_from_guest crd apdu len =
     (let event = Data EMUL_GUEST_APDU len (take (unat len) apdu)
      in (crd\<lparr>guest_apdu_list := guest_apdu_list crd @ [event]\<rparr>,
          [Lock Vreader_mutex, Insert_tail Guest_apdu_list event, Unlock Vreader_mutex,
           Cond_signal Handle_apdu_cond]))"

text \<open>\<open>emulated_get_atr\<close> returns the pointer to \<open>card->atr\<close> and stores \<open>card->atr_length\<close> in \<open>*len\<close>.\<close>
definition emulated_get_atr :: "EmulatedState \<Rightarrow> u8 list \<times> u32" where
  "emulated_get_atr crd = (atr crd, ucast (atr_length crd))"

subsection \<open>Pushing to the event queue\<close>

definition emulated_push_event ::
  "EmulatedState \<Rightarrow> EmulEvent \<Rightarrow> EmulatedState \<times> action list" where
  "emulated_push_event crd event =
     (let (p, n) = pipe_write (pipe crd)
      in (crd\<lparr>event_list := event_list crd @ [event], pipe := p\<rparr>,
          [Lock Event_list_mutex, Insert_tail Event_list event, Unlock Event_list_mutex,
           Write_pipe n]
          @ (if n \<noteq> 1 then DPRINTF crd 1 ''write to pipe failed'' else [])))"

definition emulated_push_type :: "EmulatedState \<Rightarrow> u32 \<Rightarrow> EmulatedState \<times> action list" where
  "emulated_push_type crd type = emulated_push_event crd (Gen type)"

definition emulated_push_error :: "EmulatedState \<Rightarrow> u64 \<Rightarrow> EmulatedState \<times> action list" where
  "emulated_push_error crd code = emulated_push_event crd (Error EMUL_ERROR code)"

definition emulated_push_data_type ::
  "EmulatedState \<Rightarrow> u32 \<Rightarrow> u8 list \<Rightarrow> u32 \<Rightarrow> EmulatedState \<times> action list" where
  "emulated_push_data_type crd type bytes len =
     emulated_push_event crd (Data type len (take (unat len) bytes))"

definition emulated_push_reader_insert :: "EmulatedState \<Rightarrow> EmulatedState \<times> action list" where
  "emulated_push_reader_insert crd = emulated_push_type crd EMUL_READER_INSERT"

definition emulated_push_reader_remove :: "EmulatedState \<Rightarrow> EmulatedState \<times> action list" where
  "emulated_push_reader_remove crd = emulated_push_type crd EMUL_READER_REMOVE"

definition emulated_push_card_insert ::
  "EmulatedState \<Rightarrow> u8 list \<Rightarrow> u32 \<Rightarrow> EmulatedState \<times> action list" where
  "emulated_push_card_insert crd bytes len =
     emulated_push_data_type crd EMUL_CARD_INSERT bytes len"

definition emulated_push_card_remove :: "EmulatedState \<Rightarrow> EmulatedState \<times> action list" where
  "emulated_push_card_remove crd = emulated_push_type crd EMUL_CARD_REMOVE"

definition emulated_push_response_apdu ::
  "EmulatedState \<Rightarrow> u8 list \<Rightarrow> u32 \<Rightarrow> EmulatedState \<times> action list" where
  "emulated_push_response_apdu crd apdu len =
     emulated_push_data_type crd EMUL_RESPONSE_APDU apdu len"

subsection \<open>The dispatcher\<close>

datatype error = Assert_failed | Null_deref

text \<open>
  The body of the \<open>QSIMPLEQ_FOREACH_SAFE\<close> loop of \<open>pipe_read\<close>: the debug line, the switch on
  \<open>event->p.gen.type\<close> and \<open>free(event)\<close>.  The failed assertion of the
  \<open>EMUL_CARD_INSERT\<close> case aborts the program.
\<close>
definition pipe_read_body ::
  "EmulatedState \<Rightarrow> EmulEvent \<Rightarrow> error + EmulatedState \<times> action list" where
  "pipe_read_body crd event =
     (let dbg = DPRINTF crd 2 (''event '' @ emul_event_to_string (ev_type event)) in
      if ev_type event = EMUL_RESPONSE_APDU then
        Inr (crd, dbg @ [Send_apdu_to_guest (ev_data event) (ev_len event), Free event])
      else if ev_type event = EMUL_READER_INSERT then
        Inr (crd, dbg @ [Ccid_attach, Free event])
      else if ev_type event = EMUL_READER_REMOVE then
        Inr (crd, dbg @ [Ccid_detach, Free event])
      else if ev_type event = EMUL_CARD_INSERT then
        (if \<not> unat (ev_len event) \<le> MAX_ATR_SIZE then Inl Assert_failed
         else
           let crd1 = crd\<lparr>atr_length := ucast (ev_len event)\<rparr>;
               crd2 = crd1\<lparr>atr := memcpy (atr crd1) (ev_data event) (unat (atr_length crd1))\<rparr>
           in Inr (crd2, dbg @ [Card_inserted, Free event]))
      else if ev_type event = EMUL_CARD_REMOVE then
        Inr (crd, dbg @ [Card_removed, Free event])
      else if ev_type event = EMUL_ERROR then
        Inr (crd, dbg @ [Card_error (ev_code event), Free event])
      else
        Inr (crd, dbg @ DPRINTF crd 2 ''unexpected event'' @ [Free event]))"

text \<open>
  The loop over the queue.  The event-queue mutex is held, so the queue is the one found
  at the lock; the records are visited from the head.
\<close>
fun pipe_read_foreach ::
  "EmulatedState \<Rightarrow> EmulEvent list \<Rightarrow> error + EmulatedState \<times> action list" where
  "pipe_read_foreach crd [] = Inr (crd, [])"
| "pipe_read_foreach crd (event # rest) =
     (case pipe_read_body crd event of
        Inl e \<Rightarrow> Inl e
      | Inr (crd1, acts1) \<Rightarrow>
          (case pipe_read_foreach crd1 rest of
             Inl e \<Rightarrow> Inl e
           | Inr (crd2, acts2) \<Rightarrow> Inr (crd2, acts1 @ acts2)))"

definition pipe_read :: "EmulatedState \<Rightarrow> error + EmulatedState \<times> action list" where
  "pipe_read crd =
     (let crd0 = crd\<lparr>pipe := pipe_drain (pipe crd)\<rparr> in
      case pipe_read_foreach crd0 (event_list crd0) of
        Inl e \<Rightarrow> Inl e
      | Inr (crd1, acts) \<Rightarrow>
          Inr (crd1\<lparr>event_list := []\<rparr>,
               [Lock Event_list_mutex] @ acts @ [Queue_init Event_list, Unlock Event_list_mutex]))"

subsection \<open>The APDU worker\<close>

text \<open>
  Modelled from the spec: the status type and the success status of the session
  collaborator (\<open>VReaderStatus\<close> and \<open>VREADER_OK\<close> of libcacard's \<open>vreader.h\<close>, which is not
  part of the file).  The status is an enumeration without negative values, held in 32
  bits and widened to the 64-bit error code without sign.
\<close>
type_synonym VReaderStatus = "32 word"

definition VREADER_OK :: VReaderStatus where "VREADER_OK = 0"

text \<open>
  \<open>vreader_xfr_bytes(reader, send, send_len, recv, &recv_len)\<close> is the external execute
  call.  It gets the reader, the command bytes and length, the receive buffer and its
  capacity, and gives the status, the receive buffer as it left it and the new value
  of \<open>recv_len\<close>.
\<close>
type_synonym xfr_fun =
  "VReader \<Rightarrow> u8 list \<Rightarrow> u32 \<Rightarrow> u8 list \<Rightarrow> c_int \<Rightarrow> VReaderStatus \<times> u8 list \<times> c_int"

text \<open>
  One round of the inner \<open>while\<close> loop of \<open>handle_apdu_thread\<close>, after the head has been
  removed from the queue.  \<open>recv_data\<close> is the local buffer of the thread.  The check
  \<open>assert((unsigned long)event > 1000)\<close> is on the address of the record and holds for
  every heap address.
\<close>
definition handle_apdu_body ::
  "xfr_fun \<Rightarrow> EmulatedState \<Rightarrow> u8 list \<Rightarrow> EmulEvent \<Rightarrow> EmulatedState \<times> u8 list \<times> action list" where
  "handle_apdu_body xfr crd recv_data event =
     (if ev_type event \<noteq> EMUL_GUEST_APDU then
        (crd, recv_data, DPRINTF crd 1 ''unexpected message in handle_apdu_thread'' @ [Free event])
      else
        case reader crd of
          None \<Rightarrow> (crd, recv_data, DPRINTF crd 1 ''reader is NULL'' @ [Free event])
        | Some r \<Rightarrow>
            (let recv_len = of_nat APDU_BUF_SIZE;
                 (reader_status, recv_data1, recv_len1) =
                    xfr r (ev_data event) (ev_len event) recv_data recv_len;
                 dbg = DPRINTF crd 2 ''got back apdu of length %d'';
                 (crd1, acts) =
                    (if reader_status = VREADER_OK
                     then emulated_push_response_apdu crd recv_data1 recv_len1
                     else emulated_push_error crd (ucast reader_status))
             in (crd1, recv_data1,
                 [Xfr_bytes r (ev_data event) (ev_len event) recv_len] @ dbg @ acts @ [Free event])))"

text \<open>
  The inner loop \<open>while (!QSIMPLEQ_EMPTY(&card->guest_apdu_list))\<close>, run with
  \<open>vreader_mutex\<close> held, which is also the mutex of the request queue.
\<close>
function handle_apdu_while ::
  "xfr_fun \<Rightarrow> EmulatedState \<Rightarrow> u8 list \<Rightarrow> EmulatedState \<times> u8 list \<times> action list" where
  "handle_apdu_while xfr crd recv_data =
     (case guest_apdu_list crd of
        [] \<Rightarrow> (crd, recv_data, [])
      | event # rest \<Rightarrow>
          (let r1 = handle_apdu_body xfr (crd\<lparr>guest_apdu_list := rest\<rparr>) recv_data event;
               r2 = handle_apdu_while xfr (fst r1) (fst (snd r1))
           in (fst r2, fst (snd r2),
               [Remove_head Guest_apdu_list event] @ snd (snd r1) @ snd (snd r2))))"
  by pat_completeness auto
termination
  by (relation "measure (\<lambda>(xfr, crd, recv_data). length (guest_apdu_list crd))")
     (simp_all add: handle_apdu_body_def emulated_push_response_apdu_def emulated_push_error_def
        emulated_push_data_type_def emulated_push_event_def Let_def
        split: option.splits prod.splits)

datatype loop_exit = Continue | Return

text \<open>
  One round of the outer \<open>while (1)\<close> of \<open>handle_apdu_thread\<close>: the wait on the condition
  variable, the test of the quit flag, and the drain of the request queue.  With
  \<open>Return\<close> the loop is left, the quit condition is signalled and the thread ends.
\<close>
definition handle_apdu_thread_round ::
  "xfr_fun \<Rightarrow> EmulatedState \<Rightarrow> u8 list \<Rightarrow> EmulatedState \<times> u8 list \<times> action list \<times> loop_exit" where
  "handle_apdu_thread_round xfr crd recv_data =
     (let wait = [Lock Handle_apdu_mutex, Cond_wait Handle_apdu_cond Handle_apdu_mutex,
                  Unlock Handle_apdu_mutex] in
      if quit_apdu_thread crd \<noteq> 0 then
        (crd, recv_data, wait @ [Cond_signal Apdu_thread_quit_cond], Return)
      else
        (let (crd1, recv_data1, acts) = handle_apdu_while xfr crd recv_data
         in (crd1, recv_data1, wait @ [Lock Vreader_mutex] @ acts @ [Unlock Vreader_mutex],
             Continue)))"

subsection \<open>The event-source worker\<close>

text \<open>
  \<open>vreader_power_on(reader, atr, &atr_len)\<close> is external: it gets the reader, the local
  buffer and its capacity and gives the buffer as it left it and the new \<open>atr_len\<close>.
\<close>
type_synonym power_on_fun = "VReader option \<Rightarrow> u8 list \<Rightarrow> c_int \<Rightarrow> u8 list \<times> c_int"

text \<open>
  One round of the \<open>while (1)\<close> of \<open>event_thread\<close> on the value returned by
  \<open>vevent_wait_next_vevent()\<close> (\<open>None\<close> is the null pointer).  \<open>atr_buf\<close> is the local array
  \<open>atr\<close>.  \<open>Return\<close> is given where the C code leaves the loop, by \<open>break\<close> or by
  \<open>return\<close>: the function returns on both.
\<close>
definition event_thread_round ::
  "power_on_fun \<Rightarrow> EmulatedState \<Rightarrow> u8 list \<Rightarrow> VEvent option \<Rightarrow>
     EmulatedState \<times> u8 list \<times> action list \<times> loop_exit" where
  "event_thread_round power_on crd atr_buf ev =
     (case ev of
        None \<Rightarrow> (crd, atr_buf, [], Return)
      | Some event \<Rightarrow>
          if vtype event \<noteq> VEVENT_READER_INSERT \<and> vreader event \<noteq> reader crd then
            (crd, atr_buf, DPRINTF crd 2 ''EVENT ignored'', Return)
          else
            (case vtype event of
               VEVENT_READER_INSERT \<Rightarrow>
                 (if reader crd = None then
                    (let crd1 = crd\<lparr>reader := vreader event\<rparr>;
                         (crd2, acts) = emulated_push_reader_insert crd1
                     in (crd2, atr_buf,
                         DPRINTF crd 2 ''READER INSERT %s'' @ [Vreader_reference (vreader event)]
                           @ acts @ [Vevent_delete event],
                         Continue))
                  else
                    (crd, atr_buf,
                     DPRINTF crd 2 ''READER INSERT ignored %s'' @ [Vevent_delete event], Continue))
             | VEVENT_READER_REMOVE \<Rightarrow>
                 (let crd1 = crd\<lparr>reader := None\<rparr>;
                      (crd2, acts) = emulated_push_reader_remove crd1
                  in (crd2, atr_buf,
                      DPRINTF crd 2 '' READER REMOVE: %s ''
                        @ [Lock Vreader_mutex, Vreader_free (reader crd), Unlock Vreader_mutex]
                        @ acts @ [Vevent_delete event],
                      Continue))
             | VEVENT_CARD_INSERT \<Rightarrow>
                 (let atr_len = of_nat MAX_ATR_SIZE;
                      (atr_buf1, atr_len1) = power_on (vreader event) atr_buf atr_len;
                      crd1 = crd\<lparr>atr_length := ucast atr_len1\<rparr>;
                      (crd2, acts) = emulated_push_card_insert crd1 atr_buf1 atr_len1
                  in (crd2, atr_buf1,
                      [Power_on (vreader event) atr_len] @ DPRINTF crd 2 '' CARD INSERT''
                        @ acts @ [Vevent_delete event],
                      Continue))
             | VEVENT_CARD_REMOVE \<Rightarrow>
                 (let (crd1, acts) = emulated_push_card_remove crd
                  in (crd1, atr_buf,
                      DPRINTF crd 2 '' CARD REMOVE'' @ acts @ [Vevent_delete event], Continue))
             | VEVENT_LAST \<Rightarrow> (crd, atr_buf, [Vevent_delete event], Return)
             | VEVENT_OTHER \<Rightarrow> (crd, atr_buf, [Vevent_delete event], Continue)))"

text \<open>
  The thread on the notifications that \<open>vevent_wait_next_vevent()\<close> returns one after the
  other.  The result holds the notifications that were never taken.  When the list is
  used up the thread is blocked in the wait: \<open>Continue\<close>.
\<close>
fun event_thread ::
  "power_on_fun \<Rightarrow> EmulatedState \<Rightarrow> u8 list \<Rightarrow> VEvent option list \<Rightarrow>
     EmulatedState \<times> action list \<times> loop_exit \<times> VEvent option list" where
  "event_thread power_on crd atr_buf [] = (crd, [], Continue, [])"
| "event_thread power_on crd atr_buf (ev # rest) =
     (case event_thread_round power_on crd atr_buf ev of
        (crd1, atr_buf1, acts1, Return) \<Rightarrow> (crd1, acts1, Return, rest)
      | (crd1, atr_buf1, acts1, Continue) \<Rightarrow>
          (case event_thread power_on crd1 atr_buf1 rest of
             (crd2, acts2, ex, left) \<Rightarrow> (crd2, acts1 @ acts2, ex, left)))"

subsection \<open>Initialisation\<close>

definition EMULATED_DEV_NAME :: string where "EMULATED_DEV_NAME = ''ccid-card-emulated''"
definition BACKEND_NSS_EMULATED :: string where "BACKEND_NSS_EMULATED = ''nss-emulated''"
definition BACKEND_CERTIFICATES :: string where "BACKEND_CERTIFICATES = ''certificates''"
definition CERTIFICATES_DEFAULT_DB :: string where "CERTIFICATES_DEFAULT_DB = ''/etc/pki/nssdb''"

text \<open>
  Modelled from the spec: the result type of the session collaborator's initialisation
  and its success value (\<open>VCardEmulError\<close> and \<open>VCARD_EMUL_OK\<close> of libcacard's
  \<open>vcard_emul.h\<close>, which is not part of the file).
\<close>
type_synonym VCardEmulError = "32 word"

definition VCARD_EMUL_OK :: VCardEmulError where "VCARD_EMUL_OK = 0"

text \<open>
  What the operating system and libcacard answer during initialisation: the pipe that
  \<open>pipe()\<close> creates (\<open>None\<close> when it fails), the options that \<open>vcard_emul_options\<close> parses
  (\<open>None\<close> is the null pointer), the result of \<open>vcard_emul_init\<close> and the value that
  \<open>pthread_create\<close> returns for each thread.
\<close>
record init_env =
  pipe_new :: "pipe_obj option"
  vcard_emul_options :: "string \<Rightarrow> nat option"
  vcard_emul_init :: "nat option \<Rightarrow> VCardEmulError"
  pthread_create :: "thread_fn \<Rightarrow> c_int"

definition init_pipe_signaling ::
  "init_env \<Rightarrow> EmulatedState \<Rightarrow> EmulatedState \<times> action list \<times> c_int" where
  "init_pipe_signaling env crd =
     (case pipe_new env of
        None \<Rightarrow> (crd, DPRINTF crd 2 ''pipe creation failed'', - 1)
      | Some p \<Rightarrow> (crd\<lparr>pipe := p\<rparr>, [Pipe_create], 0))"

text \<open>\<open>%s\<close> of a string that may be the null pointer, as glibc prints it.\<close>
definition fmt_s :: "string option \<Rightarrow> string" where
  "fmt_s s = (case s of None \<Rightarrow> ''(null)'' | Some x \<Rightarrow> x)"

text \<open>
  \<open>CERTIFICATES_ARGS_TEMPLATE\<close> filled in; \<open>snprintf\<close> with size \<open>sizeof(emul_args) - 1\<close>
  keeps at most 198 characters.
\<close>
definition certificates_args :: "EmulatedState \<Rightarrow> string" where
  "certificates_args crd =
     take 198
       (''db='' @ [CHR 0x22]
        @ (case db crd of None \<Rightarrow> CERTIFICATES_DEFAULT_DB | Some d \<Rightarrow> d)
        @ [CHR 0x22] @ '' use_hw=no soft=(,Virtual Reader,CAC,,''
        @ fmt_s (cert1 crd) @ '','' @ fmt_s (cert2 crd) @ '','' @ fmt_s (cert3 crd) @ '')'')"

definition emulated_initialize_vcard_from_certificates ::
  "init_env \<Rightarrow> EmulatedState \<Rightarrow> VCardEmulError \<times> action list" where
  "emulated_initialize_vcard_from_certificates env crd =
     (let emul_args = certificates_args crd;
          options = vcard_emul_options env emul_args
      in (vcard_emul_init env options,
          [Vcard_emul_options emul_args]
          @ (if options = None
             then [Printf ''%s: warning: not using certificates due to initialization error'']
             else [])
          @ [Vcard_emul_init options]))"

text \<open>
  The end of \<open>emulated_initfn\<close>, from the test of \<open>ret\<close> on: the two threads are created
  here and nowhere else.
\<close>
definition emulated_initfn_threads ::
  "init_env \<Rightarrow> EmulatedState \<Rightarrow> VCardEmulError \<Rightarrow> action list \<Rightarrow>
     c_int \<times> EmulatedState \<times> action list" where
  "emulated_initfn_threads env crd ret acts =
     (if ret \<noteq> VCARD_EMUL_OK then
        (- 1, crd, acts @ [Printf ''%s: failed to initialize vcard''])
      else if sint (pthread_create env Event_thread) < 0 then
        (- 1, crd, acts @ [Thread_create Event_thread, Printf ''%s: error creating event thread''])
      else if sint (pthread_create env Handle_apdu_thread) < 0 then
        (- 1, crd,
         acts @ [Thread_create Event_thread, Thread_create Handle_apdu_thread,
                 Printf ''%s: error creating handle_apdu thread''])
      else
        (0, crd, acts @ [Thread_create Event_thread, Thread_create Handle_apdu_thread]))"

text \<open>
  \<open>emulated_initfn\<close>.  \<open>strcmp(BACKEND_CERTIFICATES, card->backend)\<close> is the first thing the
  configuration test evaluates; on a null \<open>backend\<close> it reads through the null pointer.
  The initialisation of the mutexes and of the condition variable leaves no action.
\<close>
definition emulated_initfn ::
  "init_env \<Rightarrow> EmulatedState \<Rightarrow> error + c_int \<times> EmulatedState \<times> action list" where
  "emulated_initfn env crd =
     (let crd1 = crd\<lparr>event_list := [], guest_apdu_list := [], reader := None,
                     quit_apdu_thread := 0\<rparr>;
          (crd2, acts_pipe, rc) = init_pipe_signaling env crd1;
          acts = [Queue_init Event_list, Queue_init Guest_apdu_list] @ acts_pipe
      in
      if sint rc < 0 then Inr (- 1, crd2, acts)
      else
        case backend crd2 of
          None \<Rightarrow> Inl Null_deref
        | Some b \<Rightarrow>
            if b = BACKEND_CERTIFICATES \<and> cert1 crd2 \<noteq> None \<and> cert2 crd2 \<noteq> None
               \<and> cert3 crd2 \<noteq> None then
              (let (ret, acts_init) = emulated_initialize_vcard_from_certificates env crd2
               in Inr (emulated_initfn_threads env crd2 ret (acts @ acts_init)))
            else if b = BACKEND_CERTIFICATES then
              Inr (- 1, crd2,
                   acts @ [Printf ''%s: you must provide all three certs for certificates backend''])
            else if b \<noteq> BACKEND_NSS_EMULATED then
              Inr (- 1, crd2, acts @ [Printf ''%s: bad backend specified. The options are:''])
            else
              Inr (emulated_initfn_threads env crd2 (vcard_emul_init env None)
                     (acts @ [Vcard_emul_init None])))"

subsection \<open>Example states\<close>

text \<open>
  The device state as qdev allocates it, filled with zero: no configuration strings, an
  all-zero \<open>atr\<close> array of \<open>MAX_ATR_SIZE\<close> bytes, empty queues, no reader, and no pipe yet
  (a pipe without room).
\<close>
definition card0 :: EmulatedState where
  "card0 = \<lparr>debug = 0, backend = None, cert1 = None, cert2 = None, cert3 = None, db = None,
     atr = replicate 40 0, atr_length = 0, event_list = [], reader = None, guest_apdu_list = [],
     pipe = \<lparr>pending = 0, capacity = 0\<rparr>, quit_apdu_thread = 0\<rparr>"

text \<open>
  An execute call for the examples: an empty command fails with status 2 and leaves
  the buffer and the length alone, any other command succeeds and answers the two
  bytes 90 00.
\<close>
definition xfr_sw :: xfr_fun where
  "xfr_sw r s l buf n = (if s = [] then (2, buf, n) else (VREADER_OK, memcpy buf [0x90, 0] 2, 2))"

text \<open>
  A power-on for the examples: where the buffer and the capacity allow two bytes it
  stores the ATR 3B 00, otherwise nothing.
\<close>
definition power_on_3b :: power_on_fun where
  "power_on_3b r buf n =
     (if 2 \<le> sint n \<and> 2 \<le> length buf then (memcpy buf [0x3B, 0] 2, 2) else (buf, 0))"

text \<open>An environment in which every step of the initialisation succeeds.\<close>
definition env_ok :: init_env where
  "env_ok = \<lparr>pipe_new = Some \<lparr>pending = 0, capacity = 65536\<rparr>,
             vcard_emul_options = (\<lambda>args. Some 1),
             vcard_emul_init = (\<lambda>options. VCARD_EMUL_OK),
             pthread_create = (\<lambda>f. 0)\<rparr>"

text \<open>
  The device configured with the default backend, the state after its initialisation,
  then after the notification that reader 1 was inserted, then after the notification
  that a card was inserted into reader 1.
\<close>
definition configured :: EmulatedState where
  "configured = card0\<lparr>backend := Some BACKEND_NSS_EMULATED\<rparr>"

definition started :: EmulatedState where
  "started = configured\<lparr>pipe := \<lparr>pending = 0, capacity = 65536\<rparr>\<rparr>"

definition reader_attached :: EmulatedState where
  "reader_attached =
     fst (event_thread_round power_on_3b started (replicate 40 0)
            (Some \<lparr>vtype = VEVENT_READER_INSERT, vreader = Some 1\<rparr>))"

definition card_inserted :: EmulatedState where
  "card_inserted =
     fst (event_thread_round power_on_3b reader_attached (replicate 40 0)
            (Some \<lparr>vtype = VEVENT_CARD_INSERT, vreader = Some 1\<rparr>))"

text \<open>
  A power-on that breaks its bound: it reports 41 bytes for any capacity.  And the state
  after the notification that a card was inserted into reader 1, with that power-on.
\<close>
definition power_on_41 :: power_on_fun where
  "power_on_41 r buf n = (buf, 41)"

definition card_inserted_41 :: EmulatedState where
  "card_inserted_41 =
     fst (event_thread_round power_on_41 reader_attached (replicate 40 0)
            (Some \<lparr>vtype = VEVENT_CARD_INSERT, vreader = Some 1\<rparr>))"

text \<open>The initialised device with \<open>debug\<close> 1, its pipe filled up by wakeups that were never read.\<close>
definition full_pipe :: EmulatedState where
  "full_pipe = started\<lparr>debug := 1, pipe := \<lparr>pending = 65536, capacity = 65536\<rparr>\<rparr>"

text \<open>The certificates backend with the second certificate missing.\<close>
definition two_certs :: EmulatedState where
  "two_certs = card0\<lparr>backend := Some BACKEND_CERTIFICATES, cert1 := Some ''user1'',
                     cert3 := Some ''user3''\<rparr>"

subsection \<open>Observing runs\<close>

text \<open>The execute calls of a run, in the order they were made.\<close>
fun is_xfr :: "action \<Rightarrow> bool" where
  "is_xfr (Xfr_bytes r s l n) = True"
| "is_xfr _ = False"

definition xfr_calls :: "action list \<Rightarrow> action list" where
  "xfr_calls acts = filter is_xfr acts"

text \<open>The calls into the ccid bus, the \<open>free\<close>s and the mutex operations of a run.\<close>
fun is_callback :: "action \<Rightarrow> bool" where
  "is_callback (Send_apdu_to_guest d l) = True"
| "is_callback Ccid_attach = True"
| "is_callback Ccid_detach = True"
| "is_callback Card_inserted = True"
| "is_callback Card_removed = True"
| "is_callback (Card_error c) = True"
| "is_callback _ = False"

fun is_free :: "action \<Rightarrow> bool" where
  "is_free (Free e) = True"
| "is_free _ = False"

fun is_lock_op :: "action \<Rightarrow> bool" where
  "is_lock_op (Lock m) = True"
| "is_lock_op (Unlock m) = True"
| "is_lock_op _ = False"

text \<open>
  The actions of a run that are performed while mutex \<open>m\<close> is held; \<open>held\<close> says whether
  it is held at the start.
\<close>
fun under_lock :: "mutex \<Rightarrow> bool \<Rightarrow> action list \<Rightarrow> action list" where
  "under_lock m held [] = []"
| "under_lock m held (a # acts) =
     (if a = Lock m then under_lock m True acts
      else if a = Unlock m then under_lock m False acts
      else if held then a # under_lock m held acts
      else under_lock m held acts)"

text \<open>
  The dispatch mapping in the words of the specification: the bus callback that belongs
  to each kind of record; a kind that is not recognised has none.
\<close>
definition dispatch_mapping :: "EmulEvent \<Rightarrow> action list" where
  "dispatch_mapping e =
     (if ev_type e = EMUL_RESPONSE_APDU then [Send_apdu_to_guest (ev_data e) (ev_len e)]
      else if ev_type e = EMUL_READER_INSERT then [Ccid_attach]
      else if ev_type e = EMUL_READER_REMOVE then [Ccid_detach]
      else if ev_type e = EMUL_CARD_INSERT then [Card_inserted]
      else if ev_type e = EMUL_CARD_REMOVE then [Card_removed]
      else if ev_type e = EMUL_ERROR then [Card_error (ev_code e)]
      else [])"

text \<open>The guest submits the requests of a list one after the other.\<close>
definition submit_all :: "EmulatedState \<Rightarrow> (u8 list \<times> u32) list \<Rightarrow> EmulatedState" where
  "submit_all crd reqs =
     foldl (\<lambda>c (apdu, len). fst (emulated_apdu_from_guest c apdu len)) crd reqs"

text \<open>Two requests submitted while no reader is attached, with \<open>debug\<close> 1.\<close>
definition two_requests :: EmulatedState where
  "two_requests = submit_all (card0\<lparr>debug := 1\<rparr>) [([0, 0xA4], 2), ([0x80], 1)]"

text \<open>A reader insertion and an error of status 6 wait in the event queue.\<close>
definition two_events :: EmulatedState where
  "two_events = card0\<lparr>event_list := [Gen EMUL_READER_INSERT, Error EMUL_ERROR 6]\<rparr>"

text \<open>The last \<open>CardInsert\<close> record of a queue, if it has one.\<close>
definition last_card_insert :: "EmulEvent list \<Rightarrow> EmulEvent option" where
  "last_card_insert q =
     (case filter (\<lambda>e. ev_type e = EMUL_CARD_INSERT) q of
        [] \<Rightarrow> None
      | e # es \<Rightarrow> Some (last (e # es)))"

subsection \<open>The states the device can reach\<close>

text \<open>
  Modelled from the spec: the bound on the external power-on (\<open>vreader_power_on\<close> of
  libcacard, which is not part of the file; the specification gives it as bounded to
  the 40-byte buffer).  Given a capacity that is not negative, the call leaves the size
  of the buffer alone and reports a length between 0 and the capacity.
\<close>
definition power_on_within_capacity :: "power_on_fun \<Rightarrow> bool" where
  "power_on_within_capacity power_on =
     (\<forall>r buf n. 0 \<le> sint n \<longrightarrow>
        length (fst (power_on r buf n)) = length buf \<and>
        0 \<le> sint (snd (power_on r buf n)) \<and> sint (snd (power_on r buf n)) \<le> sint n)"

text \<open>
  Every \<open>CardInsert\<close> record of the queue passes the assertion of the dispatcher and
  holds as many bytes as its length says.
\<close>
definition queue_ok :: "EmulEvent list \<Rightarrow> bool" where
  "queue_ok q =
     (\<forall>e\<in>set q. ev_type e = EMUL_CARD_INSERT \<longrightarrow>
        unat (ev_len e) \<le> MAX_ATR_SIZE \<and> unat (ev_len e) \<le> length (ev_data e))"

definition card_ok :: "EmulatedState \<Rightarrow> bool" where
  "card_ok crd \<longleftrightarrow>
     length (atr crd) = MAX_ATR_SIZE \<and> unat (atr_length crd) \<le> MAX_ATR_SIZE \<and>
     queue_ok (event_list crd)"

text \<open>
  The device states that the three threads can produce, for a given power-on and
  execute call.  The device starts from the result of \<open>emulated_initfn\<close> on a structure
  whose \<open>atr\<close> array has its \<open>MAX_ATR_SIZE\<close> bytes and whose \<open>atr_length\<close> is within it.
  From there the event-source worker takes a notification, the guest submits a request,
  the APDU worker is woken, or the dispatcher runs, in any order and any number of
  times.  The queues are only touched under their mutexes, so a step that works on a
  queue is taken as a whole.
\<close>
inductive reachable :: "power_on_fun \<Rightarrow> xfr_fun \<Rightarrow> EmulatedState \<Rightarrow> bool"
  for power_on :: power_on_fun and xfr :: xfr_fun where
  initialised:
    "length (atr crd) = MAX_ATR_SIZE \<Longrightarrow> unat (atr_length crd) \<le> MAX_ATR_SIZE \<Longrightarrow>
     emulated_initfn env crd = Inr (rc, crd', acts) \<Longrightarrow>
     reachable power_on xfr crd'"
| notification:
    "reachable power_on xfr crd \<Longrightarrow> length atr_buf = MAX_ATR_SIZE \<Longrightarrow>
     reachable power_on xfr (fst (event_thread_round power_on crd atr_buf ev))"
| guest_apdu:
    "reachable power_on xfr crd \<Longrightarrow>
     reachable power_on xfr (fst (emulated_apdu_from_guest crd apdu len))"
| apdu_round:
    "reachable power_on xfr crd \<Longrightarrow>
     reachable power_on xfr (fst (handle_apdu_thread_round xfr crd recv_data))"
| dispatched:
    "reachable power_on xfr crd \<Longrightarrow> pipe_read crd = Inr (crd', acts) \<Longrightarrow>
     reachable power_on xfr crd'"

section \<open>Properties\<close>

subsection \<open>Auxiliary facts\<close>

lemmas emul_types =
  EMUL_READER_INSERT_def EMUL_READER_REMOVE_def EMUL_CARD_INSERT_def EMUL_CARD_REMOVE_def
  EMUL_GUEST_APDU_def EMUL_RESPONSE_APDU_def EMUL_ERROR_def

declare handle_apdu_while.simps [simp del]

lemma sint_nonneg_uint:
  fixes w :: "32 word"
  assumes "0 \<le> sint w"
  shows "uint w = sint w"
proof -
  have "sint w < 2 ^ (LENGTH(32) - 1)" by (rule sint_lt)
  then have "sint w < 2 ^ LENGTH(32)" by simp
  with assms have "take_bit LENGTH(32) (sint w) = sint w"
    by (simp add: take_bit_int_eq_self)
  then show ?thesis by (simp add: uint_sint)
qed

lemma sint_nonneg_unat:
  fixes w :: "32 word"
  shows "0 \<le> sint w \<Longrightarrow> sint w \<le> int n \<Longrightarrow> unat w \<le> n"
  using sint_nonneg_uint [of w] by (simp add: unat_eq_nat_uint)

lemma handle_apdu_while_Nil:
  "guest_apdu_list crd = [] \<Longrightarrow> handle_apdu_while xfr crd recv = (crd, recv, [])"
  by (subst handle_apdu_while.simps) simp

lemma handle_apdu_while_Cons:
  "guest_apdu_list crd = event # rest \<Longrightarrow>
   handle_apdu_while xfr crd recv =
     (let r1 = handle_apdu_body xfr (crd\<lparr>guest_apdu_list := rest\<rparr>) recv event;
          r2 = handle_apdu_while xfr (fst r1) (fst (snd r1))
      in (fst r2, fst (snd r2),
          [Remove_head Guest_apdu_list event] @ snd (snd r1) @ snd (snd r2)))"
  by (subst handle_apdu_while.simps) simp

lemma DPRINTF_no_xfr [simp]: "filter is_xfr (DPRINTF crd lvl fmt) = []"
  by (simp add: DPRINTF_def)

lemma DPRINTF_guest_apdu_list [simp]:
  "DPRINTF (crd\<lparr>guest_apdu_list := q\<rparr>) lvl fmt = DPRINTF crd lvl fmt"
  by (simp add: DPRINTF_def)

lemma push_event_no_xfr [simp]: "filter is_xfr (snd (emulated_push_event crd e)) = []"
  by (simp add: emulated_push_event_def case_prod_beta)

lemma handle_apdu_body_reader [simp]:
  "reader (fst (handle_apdu_body xfr crd recv e)) = reader crd"
  by (simp add: handle_apdu_body_def emulated_push_response_apdu_def emulated_push_error_def
      emulated_push_data_type_def emulated_push_event_def Let_def case_prod_beta
      split: option.splits)

lemma handle_apdu_body_guest_apdu_list [simp]:
  "guest_apdu_list (fst (handle_apdu_body xfr crd recv e)) = guest_apdu_list crd"
  by (simp add: handle_apdu_body_def emulated_push_response_apdu_def emulated_push_error_def
      emulated_push_data_type_def emulated_push_event_def Let_def case_prod_beta
      split: option.splits)

lemma handle_apdu_body_xfr_calls:
  "reader crd = Some r \<Longrightarrow> ev_type e = EMUL_GUEST_APDU \<Longrightarrow>
   filter is_xfr (snd (snd (handle_apdu_body xfr crd recv e))) =
     [Xfr_bytes r (ev_data e) (ev_len e) (of_nat APDU_BUF_SIZE)]"
  by (simp add: handle_apdu_body_def emulated_push_response_apdu_def emulated_push_error_def
      emulated_push_data_type_def Let_def case_prod_beta)

lemma handle_apdu_body_no_reader:
  "reader crd = None \<Longrightarrow> ev_type event = EMUL_GUEST_APDU \<Longrightarrow>
   handle_apdu_body xfr crd recv event =
     (crd, recv, DPRINTF crd 1 ''reader is NULL'' @ [Free event])"
  by (simp add: handle_apdu_body_def)

lemma handle_apdu_while_xfr_calls:
  "guest_apdu_list crd = q \<Longrightarrow> reader crd = Some r \<Longrightarrow>
   \<forall>e\<in>set q. ev_type e = EMUL_GUEST_APDU \<Longrightarrow>
   xfr_calls (snd (snd (handle_apdu_while xfr crd recv))) =
     map (\<lambda>e. Xfr_bytes r (ev_data e) (ev_len e) (of_nat APDU_BUF_SIZE)) q
   \<and> guest_apdu_list (fst (handle_apdu_while xfr crd recv)) = []"
proof (induction q arbitrary: crd recv)
  case Nil
  then show ?case
    by (simp add: handle_apdu_while_Nil xfr_calls_def)
next
  case (Cons e q)
  let ?r1 = "handle_apdu_body xfr (crd\<lparr>guest_apdu_list := q\<rparr>) recv e"
  have ih: "xfr_calls (snd (snd (handle_apdu_while xfr (fst ?r1) (fst (snd ?r1))))) =
     map (\<lambda>e. Xfr_bytes r (ev_data e) (ev_len e) (of_nat APDU_BUF_SIZE)) q
     \<and> guest_apdu_list (fst (handle_apdu_while xfr (fst ?r1) (fst (snd ?r1)))) = []"
    using Cons.prems by (intro Cons.IH) simp_all
  have b: "filter is_xfr (snd (snd ?r1)) =
      [Xfr_bytes r (ev_data e) (ev_len e) (of_nat APDU_BUF_SIZE)]"
    using Cons.prems by (intro handle_apdu_body_xfr_calls) simp_all
  show ?case
    using ih b Cons.prems(1)
    by (simp add: handle_apdu_while_Cons xfr_calls_def Let_def)
qed

lemma handle_apdu_while_no_reader:
  "guest_apdu_list crd = q \<Longrightarrow> reader crd = None \<Longrightarrow>
   \<forall>e\<in>set q. ev_type e = EMUL_GUEST_APDU \<Longrightarrow>
   handle_apdu_while xfr crd recv =
     (crd\<lparr>guest_apdu_list := []\<rparr>, recv,
      concat (map (\<lambda>e. [Remove_head Guest_apdu_list e] @ DPRINTF crd 1 ''reader is NULL''
                          @ [Free e]) q))"
proof (induction q arbitrary: crd)
  case Nil
  then show ?case by (simp add: handle_apdu_while_Nil)
next
  case (Cons e q)
  have b: "handle_apdu_body xfr (crd\<lparr>guest_apdu_list := q\<rparr>) recv e =
      (crd\<lparr>guest_apdu_list := q\<rparr>, recv, DPRINTF crd 1 ''reader is NULL'' @ [Free e])"
    using Cons.prems by (simp add: handle_apdu_body_no_reader)
  have ih: "handle_apdu_while xfr (crd\<lparr>guest_apdu_list := q\<rparr>) recv =
     (crd\<lparr>guest_apdu_list := []\<rparr>, recv,
      concat (map (\<lambda>e. [Remove_head Guest_apdu_list e] @ DPRINTF crd 1 ''reader is NULL''
                          @ [Free e]) q))"
    using Cons.prems Cons.IH [of "crd\<lparr>guest_apdu_list := q\<rparr>"] by simp
  show ?case
    using Cons.prems(1) b ih by (simp add: handle_apdu_while_Cons Let_def)
qed

lemma DPRINTF_quiet [simp]:
  "filter (\<lambda>a. is_callback a \<or> is_free a) (DPRINTF crd lvl fmt) = []"
  "a \<in> set (DPRINTF crd lvl fmt) \<Longrightarrow> \<not> is_lock_op a"
  by (auto simp: DPRINTF_def split: if_splits)

lemma pipe_read_body_actions:
  "pipe_read_body crd e = Inr (crd1, acts) \<Longrightarrow>
   (\<forall>a\<in>set acts. \<not> is_lock_op a) \<and>
   filter (\<lambda>a. is_callback a \<or> is_free a) acts = dispatch_mapping e @ [Free e]"
  by (auto simp: pipe_read_body_def dispatch_mapping_def Let_def emul_types split: if_splits)

lemma pipe_read_foreach_actions:
  "pipe_read_foreach crd q = Inr (crd', acts) \<Longrightarrow>
   (\<forall>a\<in>set acts. \<not> is_lock_op a) \<and>
   filter (\<lambda>a. is_callback a \<or> is_free a) acts =
     concat (map (\<lambda>e. dispatch_mapping e @ [Free e]) q)"
proof (induction q arbitrary: crd acts)
  case Nil
  then show ?case by simp
next
  case (Cons e q)
  from Cons.prems obtain crd1 a1 a2 where
    b: "pipe_read_body crd e = Inr (crd1, a1)" and
    r: "pipe_read_foreach crd1 q = Inr (crd', a2)" and
    a: "acts = a1 @ a2"
    by (auto split: sum.splits prod.splits)
  from pipe_read_body_actions [OF b] Cons.IH [OF r] a show ?case
    by auto
qed

lemma under_lock_no_lock_op:
  "\<forall>a\<in>set mid. \<not> is_lock_op a \<Longrightarrow>
   under_lock m True (mid @ rest) = mid @ under_lock m True rest"
  by (induction mid) auto

lemma ucast_u8_small:
  fixes w :: "32 word"
  shows "unat w \<le> 40 \<Longrightarrow> unat (ucast w :: 8 word) = unat w"
  by (simp add: unsigned_ucast_eq take_bit_nat_eq_self unsigned_take_bit_eq)

lemma ucast_u8_u32:
  fixes w :: "8 word"
  shows "unat (ucast w :: 32 word) = unat w"
proof -
  have "unat w < 2 ^ LENGTH(8)" by (rule unsigned_less)
  then have "unat w < 2 ^ 32" by simp
  then show ?thesis
    by (simp add: unsigned_ucast_eq take_bit_nat_eq_self)
qed

lemma ucast_u32_u8_u32:
  fixes w :: "32 word"
  shows "unat w \<le> 40 \<Longrightarrow> (ucast (ucast w :: 8 word) :: 32 word) = w"
  by (metis ucast_u8_small ucast_u8_u32 word_eq_iff_unsigned)

lemma queue_ok_append: "queue_ok (q @ [e]) \<longleftrightarrow> queue_ok q \<and> queue_ok [e]"
  by (auto simp: queue_ok_def)

lemma queue_ok_other: "ev_type e \<noteq> EMUL_CARD_INSERT \<Longrightarrow> queue_ok [e]"
  by (simp add: queue_ok_def)

lemma card_ok_push_event:
  "card_ok crd \<Longrightarrow> queue_ok [e] \<Longrightarrow> card_ok (fst (emulated_push_event crd e))"
  by (simp add: card_ok_def emulated_push_event_def case_prod_beta queue_ok_append)

lemma card_ok_fields [simp]:
  "card_ok (crd\<lparr>reader := r\<rparr>) = card_ok crd"
  "card_ok (crd\<lparr>guest_apdu_list := g\<rparr>) = card_ok crd"
  "card_ok (crd\<lparr>pipe := p\<rparr>) = card_ok crd"
  by (simp_all add: card_ok_def)

lemma card_ok_atr_length:
  "card_ok crd \<Longrightarrow> unat l \<le> MAX_ATR_SIZE \<Longrightarrow> card_ok (crd\<lparr>atr_length := l\<rparr>)"
  by (simp add: card_ok_def)

lemma power_on_card_insert_ok:
  assumes "power_on_within_capacity power_on" and "length atr_buf = MAX_ATR_SIZE"
  shows "queue_ok [Data EMUL_CARD_INSERT (snd (power_on r atr_buf (of_nat MAX_ATR_SIZE)))
           (take (unat (snd (power_on r atr_buf (of_nat MAX_ATR_SIZE))))
              (fst (power_on r atr_buf (of_nat MAX_ATR_SIZE))))]"
    and "unat (ucast (snd (power_on r atr_buf (of_nat MAX_ATR_SIZE))) :: u8) \<le> MAX_ATR_SIZE"
proof -
  let ?n = "of_nat MAX_ATR_SIZE :: c_int"
  have s: "sint ?n = 40" by (simp add: MAX_ATR_SIZE_def)
  then have "0 \<le> sint ?n" by simp
  with assms(1) have
    l: "length (fst (power_on r atr_buf ?n)) = length atr_buf" and
    a: "0 \<le> sint (snd (power_on r atr_buf ?n))" and
    b: "sint (snd (power_on r atr_buf ?n)) \<le> sint ?n"
    unfolding power_on_within_capacity_def by blast+
  from b s have "sint (snd (power_on r atr_buf ?n)) \<le> int MAX_ATR_SIZE"
    by (simp add: MAX_ATR_SIZE_def)
  with a have u: "unat (snd (power_on r atr_buf ?n)) \<le> MAX_ATR_SIZE"
    by (rule sint_nonneg_unat)
  with l assms(2) show "queue_ok [Data EMUL_CARD_INSERT (snd (power_on r atr_buf ?n))
           (take (unat (snd (power_on r atr_buf ?n))) (fst (power_on r atr_buf ?n)))]"
    by (simp add: queue_ok_def)
  from u show "unat (ucast (snd (power_on r atr_buf ?n)) :: u8) \<le> MAX_ATR_SIZE"
    by (simp add: MAX_ATR_SIZE_def ucast_u8_small)
qed

lemma card_ok_event_thread_round:
  assumes "power_on_within_capacity power_on" and "length atr_buf = MAX_ATR_SIZE"
    and "card_ok crd"
  shows "card_ok (fst (event_thread_round power_on crd atr_buf ev))"
proof (cases ev)
  case None
  then show ?thesis using assms(3) by (simp add: event_thread_round_def)
next
  case (Some event)
  show ?thesis
  proof (cases "vtype event")
    case VEVENT_CARD_INSERT
    then show ?thesis
      using Some assms(3) power_on_card_insert_ok [OF assms(1,2)]
      by (auto simp: event_thread_round_def emulated_push_card_insert_def
          emulated_push_data_type_def Let_def case_prod_beta
          intro!: card_ok_push_event card_ok_atr_length)
  qed (use Some assms(3) in \<open>simp_all add: event_thread_round_def emulated_push_reader_insert_def
        emulated_push_reader_remove_def emulated_push_card_remove_def emulated_push_type_def
        Let_def case_prod_beta card_ok_push_event queue_ok_other emul_types\<close>)
qed

lemma card_ok_handle_apdu_body:
  "card_ok crd \<Longrightarrow> card_ok (fst (handle_apdu_body xfr crd recv e))"
  by (simp add: handle_apdu_body_def emulated_push_response_apdu_def emulated_push_error_def
      emulated_push_data_type_def Let_def case_prod_beta card_ok_push_event queue_ok_other
      emul_types split: option.splits)

lemma card_ok_handle_apdu_while:
  "guest_apdu_list crd = q \<Longrightarrow> card_ok crd \<Longrightarrow> card_ok (fst (handle_apdu_while xfr crd recv))"
proof (induction q arbitrary: crd recv)
  case Nil
  then show ?case by (simp add: handle_apdu_while_Nil)
next
  case (Cons e q)
  let ?r1 = "handle_apdu_body xfr (crd\<lparr>guest_apdu_list := q\<rparr>) recv e"
  have "card_ok (fst ?r1)"
    using Cons.prems(2) by (simp add: card_ok_handle_apdu_body)
  moreover have "guest_apdu_list (fst ?r1) = q" by simp
  ultimately have "card_ok (fst (handle_apdu_while xfr (fst ?r1) (fst (snd ?r1))))"
    by (rule Cons.IH [rotated])
  then show ?case
    using Cons.prems(1) by (simp add: handle_apdu_while_Cons Let_def)
qed

lemma card_ok_handle_apdu_thread_round:
  "card_ok crd \<Longrightarrow> card_ok (fst (handle_apdu_thread_round xfr crd recv))"
  using card_ok_handle_apdu_while [OF refl, of crd xfr recv]
  by (simp add: handle_apdu_thread_round_def Let_def case_prod_beta)

lemma pipe_read_body_ok:
  assumes "length (atr crd) = MAX_ATR_SIZE" and "unat (atr_length crd) \<le> MAX_ATR_SIZE"
    and "queue_ok [e]"
  shows "\<exists>crd1 acts. pipe_read_body crd e = Inr (crd1, acts) \<and>
           length (atr crd1) = MAX_ATR_SIZE \<and> unat (atr_length crd1) \<le> MAX_ATR_SIZE"
proof (cases "ev_type e = EMUL_CARD_INSERT")
  case True
  with assms(3) have le: "unat (ev_len e) \<le> MAX_ATR_SIZE"
    and wf: "unat (ev_len e) \<le> length (ev_data e)"
    by (simp_all add: queue_ok_def)
  from le have "unat (ucast (ev_len e) :: u8) = unat (ev_len e)"
    by (simp add: MAX_ATR_SIZE_def ucast_u8_small)
  with True le wf assms(1) show ?thesis
    by (simp add: pipe_read_body_def Let_def emul_types memcpy_def)
next
  case False
  with assms(1,2) show ?thesis
    by (simp add: pipe_read_body_def Let_def)
qed

lemma pipe_read_foreach_ok:
  "length (atr crd) = MAX_ATR_SIZE \<Longrightarrow> unat (atr_length crd) \<le> MAX_ATR_SIZE \<Longrightarrow> queue_ok q \<Longrightarrow>
   \<exists>crd' acts. pipe_read_foreach crd q = Inr (crd', acts) \<and>
      length (atr crd') = MAX_ATR_SIZE \<and> unat (atr_length crd') \<le> MAX_ATR_SIZE"
proof (induction q arbitrary: crd)
  case Nil
  then show ?case by simp
next
  case (Cons e q)
  from Cons.prems(3) have qe: "queue_ok [e]" and qq: "queue_ok q"
    by (simp_all add: queue_ok_def)
  from pipe_read_body_ok [OF Cons.prems(1,2) qe] obtain crd1 a1 where
    b: "pipe_read_body crd e = Inr (crd1, a1)" and l: "length (atr crd1) = MAX_ATR_SIZE"
    and u: "unat (atr_length crd1) \<le> MAX_ATR_SIZE"
    by blast
  from Cons.IH [OF l u qq] obtain crd' a2 where
    "pipe_read_foreach crd1 q = Inr (crd', a2)" "length (atr crd') = MAX_ATR_SIZE"
    "unat (atr_length crd') \<le> MAX_ATR_SIZE"
    by blast
  with b show ?case by simp
qed

lemma pipe_read_ok:
  assumes "card_ok crd"
  shows "\<exists>crd' acts. pipe_read crd = Inr (crd', acts) \<and> card_ok crd'"
proof -
  from assms have "length (atr (crd\<lparr>pipe := pipe_drain (pipe crd)\<rparr>)) = MAX_ATR_SIZE"
    and "unat (atr_length (crd\<lparr>pipe := pipe_drain (pipe crd)\<rparr>)) \<le> MAX_ATR_SIZE"
    and "queue_ok (event_list crd)"
    by (simp_all add: card_ok_def)
  from pipe_read_foreach_ok [OF this] obtain crd1 mid where
    "pipe_read_foreach (crd\<lparr>pipe := pipe_drain (pipe crd)\<rparr>) (event_list crd) = Inr (crd1, mid)"
    "length (atr crd1) = MAX_ATR_SIZE" "unat (atr_length crd1) \<le> MAX_ATR_SIZE"
    by blast
  then show ?thesis
    by (simp add: pipe_read_def Let_def card_ok_def queue_ok_def)
qed

lemma pipe_read_body_never_grows_atr:
  assumes "pipe_read_body crd e = Inr (crd1, acts)" and "length (atr crd) = MAX_ATR_SIZE"
  shows "length (atr crd1) \<le> MAX_ATR_SIZE"
proof (cases "ev_type e = EMUL_CARD_INSERT")
  case True
  with assms(1) have le: "unat (ev_len e) \<le> MAX_ATR_SIZE"
    by (auto simp: pipe_read_body_def Let_def emul_types split: if_splits)
  then have "unat (ucast (ev_len e) :: u8) = unat (ev_len e)"
    by (simp add: MAX_ATR_SIZE_def ucast_u8_small)
  with True le assms show ?thesis
    by (auto simp: pipe_read_body_def Let_def emul_types memcpy_def split: if_splits)
next
  case False
  with assms show ?thesis
    by (auto simp: pipe_read_body_def Let_def split: if_splits)
qed

lemma emulated_initfn_state:
  "emulated_initfn env crd = Inr (rc, crd', acts) \<Longrightarrow>
   event_list crd' = [] \<and> atr crd' = atr crd \<and> atr_length crd' = atr_length crd"
  by (auto simp: emulated_initfn_def emulated_initfn_threads_def init_pipe_signaling_def Let_def
      split: option.splits if_splits prod.splits)

lemma reachable_card_ok:
  assumes "power_on_within_capacity power_on" and "reachable power_on xfr crd"
  shows "card_ok crd"
  using assms(2)
proof (induction rule: reachable.induct)
  case (initialised crd env rc crd' acts)
  from emulated_initfn_state [OF initialised(3)] initialised(1,2) show ?case
    by (simp add: card_ok_def queue_ok_def)
next
  case (notification crd atr_buf ev)
  then show ?case by (simp add: card_ok_event_thread_round [OF assms(1)])
next
  case (guest_apdu crd apdu len)
  then show ?case by (simp add: emulated_apdu_from_guest_def Let_def)
next
  case (apdu_round crd recv_data)
  then show ?case by (simp add: card_ok_handle_apdu_thread_round)
next
  case (dispatched crd crd' acts)
  with pipe_read_ok [of crd] show ?case by auto
qed

lemma pipe_read_body_card_insert:
  assumes "pipe_read_body crd e = Inr (crd1, acts)" and "ev_type e = EMUL_CARD_INSERT"
    and "length (atr crd) = MAX_ATR_SIZE" and "unat (ev_len e) \<le> length (ev_data e)"
  shows "unat (ev_len e) \<le> MAX_ATR_SIZE \<and> length (atr crd1) = MAX_ATR_SIZE \<and>
         snd (emulated_get_atr crd1) = ev_len e \<and>
         take (unat (ev_len e)) (fst (emulated_get_atr crd1)) = take (unat (ev_len e)) (ev_data e)"
proof -
  from assms(1,2) have le: "unat (ev_len e) \<le> MAX_ATR_SIZE"
    by (auto simp: pipe_read_body_def Let_def emul_types split: if_splits)
  then have le40: "unat (ev_len e) \<le> 40" by (simp add: MAX_ATR_SIZE_def)
  from assms(1,2) le have c: "crd1 = crd\<lparr>atr_length := ucast (ev_len e),
      atr := memcpy (atr crd) (ev_data e) (unat (ucast (ev_len e) :: 8 word))\<rparr>"
    by (auto simp: pipe_read_body_def Let_def emul_types split: if_splits)
  show ?thesis
    using le assms(3,4) le40
    by (simp add: c emulated_get_atr_def memcpy_def ucast_u8_small ucast_u32_u8_u32 MAX_ATR_SIZE_def)
qed

lemma pipe_read_body_other:
  "pipe_read_body crd e = Inr (crd1, acts) \<Longrightarrow> ev_type e \<noteq> EMUL_CARD_INSERT \<Longrightarrow>
   atr crd1 = atr crd \<and> atr_length crd1 = atr_length crd"
  by (auto simp: pipe_read_body_def Let_def split: if_splits)

lemma pipe_read_foreach_atr:
  assumes "pipe_read_foreach crd q = Inr (crd', acts)" and "length (atr crd) = MAX_ATR_SIZE"
    and "\<forall>e\<in>set q. unat (ev_len e) \<le> length (ev_data e)"
  shows "length (atr crd') = MAX_ATR_SIZE \<and>
     (case last_card_insert q of
        None \<Rightarrow> emulated_get_atr crd' = emulated_get_atr crd
      | Some e \<Rightarrow> unat (ev_len e) \<le> MAX_ATR_SIZE \<and>
          snd (emulated_get_atr crd') = ev_len e \<and>
          take (unat (ev_len e)) (fst (emulated_get_atr crd')) = take (unat (ev_len e)) (ev_data e))"
  using assms
proof (induction q arbitrary: crd acts)
  case Nil
  then show ?case by (simp add: last_card_insert_def)
next
  case (Cons e q)
  from Cons.prems(1) obtain crd1 a1 a2 where
    b: "pipe_read_body crd e = Inr (crd1, a1)" and
    r: "pipe_read_foreach crd1 q = Inr (crd', a2)"
    by (auto split: sum.splits prod.splits)
  have wf: "\<forall>e\<in>set q. unat (ev_len e) \<le> length (ev_data e)" and wfe: "unat (ev_len e) \<le> length (ev_data e)"
    using Cons.prems(3) by simp_all
  show ?case
  proof (cases "ev_type e = EMUL_CARD_INSERT")
    case True
    note h = pipe_read_body_card_insert [OF b True Cons.prems(2) wfe]
    from h have l1: "length (atr crd1) = MAX_ATR_SIZE" by simp
    note ih = Cons.IH [OF r l1 wf]
    show ?thesis
    proof (cases "filter (\<lambda>e. ev_type e = EMUL_CARD_INSERT) q")
      case Nil
      then have "last_card_insert (e # q) = Some e" "last_card_insert q = None"
        using True by (simp_all add: last_card_insert_def)
      with ih h show ?thesis by simp
    next
      case (Cons x xs)
      then have "last_card_insert (e # q) = Some (last (x # xs))"
        "last_card_insert q = Some (last (x # xs))"
        using True by (simp_all add: last_card_insert_def)
      with ih show ?thesis by simp
    qed
  next
    case False
    from pipe_read_body_other [OF b False] have
      same: "emulated_get_atr crd1 = emulated_get_atr crd" and l1: "length (atr crd1) = MAX_ATR_SIZE"
      using Cons.prems(2) by (simp_all add: emulated_get_atr_def)
    have "last_card_insert (e # q) = last_card_insert q"
      using False by (simp add: last_card_insert_def)
    with Cons.IH [OF r l1 wf] same show ?thesis by (auto split: option.splits)
  qed
qed

lemma emulated_initfn_started:
  "emulated_initfn env_ok configured =
     Inr (0, started,
          [Queue_init Event_list, Queue_init Guest_apdu_list, Pipe_create, Vcard_emul_init None,
           Thread_create Event_thread, Thread_create Handle_apdu_thread])"
  by (simp add: emulated_initfn_def emulated_initfn_threads_def init_pipe_signaling_def env_ok_def
      configured_def started_def card0_def BACKEND_NSS_EMULATED_def BACKEND_CERTIFICATES_def
      VCARD_EMUL_OK_def Let_def)

lemma reader_attached_eq:
  "reader_attached =
     started\<lparr>reader := Some 1, event_list := [Gen EMUL_READER_INSERT],
             pipe := \<lparr>pending = 1, capacity = 65536\<rparr>\<rparr>"
  by (simp add: reader_attached_def event_thread_round_def started_def configured_def card0_def
      emulated_push_reader_insert_def emulated_push_type_def emulated_push_event_def
      pipe_write_def Let_def)

lemma card_inserted_eq:
  "card_inserted =
     started\<lparr>reader := Some 1, atr_length := 2,
             event_list := [Gen EMUL_READER_INSERT, Data EMUL_CARD_INSERT 2 [0x3B, 0]],
             pipe := \<lparr>pending = 2, capacity = 65536\<rparr>\<rparr>"
  by (simp add: card_inserted_def reader_attached_eq event_thread_round_def started_def
      configured_def card0_def power_on_3b_def memcpy_def MAX_ATR_SIZE_def
      emulated_push_card_insert_def emulated_push_data_type_def emulated_push_event_def
      pipe_write_def Let_def)

lemma power_on_3b_within_capacity: "power_on_within_capacity power_on_3b"
  by (auto simp: power_on_within_capacity_def power_on_3b_def memcpy_def)

lemma reachable_card_inserted: "reachable power_on_3b xfr_sw card_inserted"
proof -
  have "length (atr configured) = MAX_ATR_SIZE"
    by (simp add: configured_def card0_def MAX_ATR_SIZE_def)
  moreover have "unat (atr_length configured) \<le> MAX_ATR_SIZE"
    by (simp add: configured_def card0_def)
  ultimately have "reachable power_on_3b xfr_sw started"
    using emulated_initfn_started by (rule reachable.initialised)
  then have "reachable power_on_3b xfr_sw reader_attached"
    unfolding reader_attached_def by (rule reachable.notification) (simp add: MAX_ATR_SIZE_def)
  then show ?thesis
    unfolding card_inserted_def by (rule reachable.notification) (simp add: MAX_ATR_SIZE_def)
qed

lemma submit_all_queue:
  "guest_apdu_list (submit_all crd reqs) =
     guest_apdu_list crd
     @ map (\<lambda>(apdu, len). Data EMUL_GUEST_APDU len (take (unat len) apdu)) reqs"
  by (induction reqs arbitrary: crd)
     (simp_all add: submit_all_def emulated_apdu_from_guest_def Let_def split: prod.splits)

lemma submit_all_reader: "reader (submit_all crd reqs) = reader crd"
  by (induction reqs arbitrary: crd)
     (simp_all add: submit_all_def emulated_apdu_from_guest_def Let_def split: prod.splits)


subsection \<open>Pushing to the event queue\<close>

text \<open>
  C7.  For every push to the event queue the record is appended, under the lock, before
  the wakeup write is attempted, and a failed wakeup write never loses it.  Whatever the
  write returns, the queue after the push is the old queue with the record at its tail.
  When the pipe has room the write returns 1.  When the pipe is full the write fails
  with -1: the push then changes nothing but the queue, its actions are lock, insert,
  unlock, the failed write and the level-1 debug line \<open>write to pipe failed\<close> (printed when
  \<open>debug\<close> is at least 1), and it returns normally.
\<close>
theorem push_event_keeps_record:
  "event_list (fst (emulated_push_event crd event)) = event_list crd @ [event] \<and>
   (pending (pipe crd) < capacity (pipe crd) \<longrightarrow>
      emulated_push_event crd event =
        (crd\<lparr>event_list := event_list crd @ [event],
             pipe := (pipe crd)\<lparr>pending := pending (pipe crd) + 1\<rparr>\<rparr>,
         [Lock Event_list_mutex, Insert_tail Event_list event, Unlock Event_list_mutex,
          Write_pipe 1])) \<and>
   (\<not> pending (pipe crd) < capacity (pipe crd) \<longrightarrow>
      emulated_push_event crd event =
        (crd\<lparr>event_list := event_list crd @ [event]\<rparr>,
         [Lock Event_list_mutex, Insert_tail Event_list event, Unlock Event_list_mutex,
          Write_pipe (- 1)] @ DPRINTF crd 1 ''write to pipe failed''))"
  by (simp add: emulated_push_event_def pipe_write_def)

theorem push_event_keeps_record_witness:
  "\<not> pending (pipe full_pipe) < capacity (pipe full_pipe) \<and>
   emulated_push_event full_pipe (Gen EMUL_CARD_REMOVE) =
     (full_pipe\<lparr>event_list := [Gen EMUL_CARD_REMOVE]\<rparr>,
      [Lock Event_list_mutex, Insert_tail Event_list (Gen EMUL_CARD_REMOVE),
       Unlock Event_list_mutex, Write_pipe (- 1), Printf ''write to pipe failed''])"
  using push_event_keeps_record [of full_pipe "Gen EMUL_CARD_REMOVE"]
  by (simp add: full_pipe_def started_def configured_def card0_def DPRINTF_def)

subsection \<open>The dispatcher and the ATR\<close>

text \<open>
  C10.  Dispatching a record whose kind is not \<open>EMUL_CARD_INSERT\<close> (any of the other six
  kinds, or a value that is no kind at all) succeeds and leaves the \<open>atr\<close> array and
  \<open>atr_length\<close> of the device as they were.
\<close>
theorem dispatch_other_kind_keeps_atr:
  "ev_type event \<noteq> EMUL_CARD_INSERT \<Longrightarrow>
   \<exists>crd' acts. pipe_read_body crd event = Inr (crd', acts) \<and>
      atr crd' = atr crd \<and> atr_length crd' = atr_length crd"
  by (simp add: pipe_read_body_def Let_def)

theorem dispatch_other_kind_keeps_atr_witness:
  "ev_type (Error EMUL_ERROR 6) \<noteq> EMUL_CARD_INSERT \<and>
   (\<exists>crd' acts. pipe_read_body card0 (Error EMUL_ERROR 6) = Inr (crd', acts) \<and>
      atr crd' = atr card0 \<and> atr_length crd' = atr_length card0)"
  using dispatch_other_kind_keeps_atr [of "Error EMUL_ERROR 6" card0]
  by (simp add: emul_types)

text \<open>
  What the dispatcher does keep.  It rejects a \<open>CardInsert\<close> record whose length is above
  \<open>MAX_ATR_SIZE\<close> (40) by its assertion before it writes anything, and a dispatch that goes
  through leaves the ATR array within its 40 bytes.  In every state the device can
  reach, with a power-on that keeps within the capacity it is given, each \<open>CardInsert\<close>
  record of the event queue has a length of at most 40, the dispatcher runs without a
  failed assertion, and the length that \<open>emulated_get_atr\<close> gives is at most 40.
\<close>
lemma dispatcher_assertion_holds:
  assumes "power_on_within_capacity power_on" and "reachable power_on xfr crd"
  shows "(\<forall>e\<in>set (event_list crd).
            ev_type e = EMUL_CARD_INSERT \<longrightarrow> unat (ev_len e) \<le> MAX_ATR_SIZE)
     \<and> (\<exists>crd' acts. pipe_read crd = Inr (crd', acts) \<and> length (atr crd') = MAX_ATR_SIZE)
     \<and> length (fst (emulated_get_atr crd)) = MAX_ATR_SIZE
     \<and> unat (snd (emulated_get_atr crd)) \<le> MAX_ATR_SIZE
     \<and> (ev_type e0 = EMUL_CARD_INSERT \<and> MAX_ATR_SIZE < unat (ev_len e0) \<longrightarrow>
          pipe_read_body crd0 e0 = Inl Assert_failed)
     \<and> (pipe_read_body crd0 e0 = Inr (crd1, acts1) \<and> length (atr crd0) = MAX_ATR_SIZE \<longrightarrow>
          length (atr crd1) \<le> MAX_ATR_SIZE)"
proof -
  from reachable_card_ok [OF assms] have ok: "card_ok crd" .
  have a: "ev_type e0 = EMUL_CARD_INSERT \<and> MAX_ATR_SIZE < unat (ev_len e0) \<longrightarrow>
          pipe_read_body crd0 e0 = Inl Assert_failed"
    by (simp add: pipe_read_body_def Let_def emul_types)
  have b: "pipe_read_body crd0 e0 = Inr (crd1, acts1) \<and> length (atr crd0) = MAX_ATR_SIZE \<longrightarrow>
          length (atr crd1) \<le> MAX_ATR_SIZE"
    using pipe_read_body_never_grows_atr [of crd0 e0 crd1 acts1] by blast
  from pipe_read_ok [OF ok] ok a b show ?thesis
    by (auto simp: card_ok_def queue_ok_def emulated_get_atr_def ucast_u8_u32)
qed

lemma dispatcher_assertion_holds_example:
  "power_on_within_capacity power_on_3b \<and> reachable power_on_3b xfr_sw card_inserted \<and>
   event_list card_inserted = [Gen EMUL_READER_INSERT, Data EMUL_CARD_INSERT 2 [0x3B, 0]] \<and>
   (\<exists>crd' acts. pipe_read card_inserted = Inr (crd', acts) \<and> length (atr crd') = MAX_ATR_SIZE) \<and>
   pipe_read_body card0 (Data EMUL_CARD_INSERT 41 (replicate 41 0)) = Inl Assert_failed"
  using dispatcher_assertion_holds [OF power_on_3b_within_capacity reachable_card_inserted,
          of "Data EMUL_CARD_INSERT 41 (replicate 41 0)" card0]
    power_on_3b_within_capacity reachable_card_inserted
  by (simp add: card_inserted_eq emul_types MAX_ATR_SIZE_def)

text \<open>
  C4.  The claim: a \<open>CardInsert\<close> length above 40 is rejected or truncated before the ATR
  is written, and so \<open>emulated_get_atr\<close> never gives more bytes than were validly stored.
  The assertion of the dispatcher does its part (see above), but the code breaks the
  claim before the dispatcher is reached, by the same write as in C3: \<open>event_thread\<close>
  stores \<open>card->atr_length = (uint8_t)atr_len\<close> as soon as the power-on returns, with no
  check and no byte stored.  First, with a power-on that keeps its bound
  (\<open>power_on_3b_within_capacity\<close>) and in a state the device reaches
  (\<open>reachable_card_inserted\<close>): the \<open>CardInsert\<close> record of two bytes is still waiting in
  the queue, the ATR array holds no stored byte, and \<open>emulated_get_atr\<close> gives 2 bytes.
  Second, with a power-on that reports 41: the length is neither rejected nor truncated
  when it arrives, \<open>emulated_get_atr\<close> gives 41 bytes over the array of 40, a record of
  length 41 is queued (the C code copies its 41 bytes out of the local array of 40), and
  the record is refused only later, when the dispatcher's assertion aborts the program.
\<close>
theorem get_atr_hands_out_unstored_length:
  "atr card_inserted = replicate 40 0 \<and>
   event_list card_inserted = [Gen EMUL_READER_INSERT, Data EMUL_CARD_INSERT 2 [0x3B, 0]] \<and>
   emulated_get_atr card_inserted = (replicate 40 0, 2) \<and>
   atr card_inserted_41 = replicate 40 0 \<and>
   event_list card_inserted_41 =
     [Gen EMUL_READER_INSERT, Data EMUL_CARD_INSERT 41 (replicate 40 0)] \<and>
   emulated_get_atr card_inserted_41 = (replicate 40 0, 41) \<and>
   pipe_read card_inserted_41 = Inl Assert_failed"
proof -
  have e: "card_inserted_41 =
     started\<lparr>reader := Some 1, atr_length := 41,
             event_list := [Gen EMUL_READER_INSERT, Data EMUL_CARD_INSERT 41 (replicate 40 0)],
             pipe := \<lparr>pending = 2, capacity = 65536\<rparr>\<rparr>"
    by (simp add: card_inserted_41_def reader_attached_eq event_thread_round_def started_def
        configured_def card0_def power_on_41_def MAX_ATR_SIZE_def
        emulated_push_card_insert_def emulated_push_data_type_def emulated_push_event_def
        pipe_write_def Let_def)
  have a: "pipe_read card_inserted_41 = Inl Assert_failed"
    by (simp add: e started_def configured_def card0_def pipe_read_def pipe_read_body_def
        pipe_drain_def DPRINTF_def emul_types Let_def MAX_ATR_SIZE_def)
  show ?thesis
    using a
    by (simp add: e card_inserted_eq emulated_get_atr_def started_def configured_def card0_def)
qed

text \<open>
  The dispatch path stores the ATR as a pair.  After \<open>pipe_read\<close> has gone through a queue
  whose records hold the bytes their lengths say, \<open>emulated_get_atr\<close> gives the length
  and the bytes of the last \<open>CardInsert\<close> record of that queue, and what it gave before
  when the queue has none.
\<close>
lemma dispatch_stores_atr_pair:
  assumes "pipe_read crd = Inr (crd', acts)" and "length (atr crd) = MAX_ATR_SIZE"
    and "\<forall>e\<in>set (event_list crd). unat (ev_len e) \<le> length (ev_data e)"
  shows "length (atr crd') = MAX_ATR_SIZE \<and>
     (case last_card_insert (event_list crd) of
        None \<Rightarrow> emulated_get_atr crd' = emulated_get_atr crd
      | Some e \<Rightarrow> unat (ev_len e) \<le> MAX_ATR_SIZE \<and>
          snd (emulated_get_atr crd') = ev_len e \<and>
          take (unat (ev_len e)) (fst (emulated_get_atr crd')) =
            take (unat (ev_len e)) (ev_data e))"
proof -
  from assms(1) obtain crd1 mid where
    f: "pipe_read_foreach (crd\<lparr>pipe := pipe_drain (pipe crd)\<rparr>) (event_list crd) = Inr (crd1, mid)"
    and c: "crd' = crd1\<lparr>event_list := []\<rparr>"
    by (auto simp: pipe_read_def Let_def split: sum.splits prod.splits)
  have l: "length (atr (crd\<lparr>pipe := pipe_drain (pipe crd)\<rparr>)) = MAX_ATR_SIZE"
    using assms(2) by simp
  from pipe_read_foreach_atr [OF f l assms(3)] show ?thesis
    by (simp add: c emulated_get_atr_def split: option.splits)
qed

text \<open>
  C3.  The claim: \<open>emulated_get_atr\<close> gives the bytes and the length that the most
  recently dispatched \<open>CardInsert\<close> record stored, a zero length before the first one is
  dispatched, and never a length that does not belong to the stored bytes, the pair
  being written by the dispatch of a \<open>CardInsert\<close> only.  The code does not keep to it:
  \<open>event_thread\<close> itself stores \<open>card->atr_length\<close> when the card-insert notification
  arrives, before the record is even queued.  Here the device has been initialised
  (the event queue is empty and the ATR has length 0), reader 1 is attached and a card
  with ATR 3B 00 is inserted.  Both records are still waiting in the event queue,
  nothing has been dispatched, and \<open>emulated_get_atr\<close> already reports the length 2, over
  an array that holds only zero bytes.
\<close>
theorem get_atr_length_before_dispatch:
  "event_list started = [] \<and> emulated_get_atr started = (replicate 40 0, 0) \<and>
   event_list card_inserted = [Gen EMUL_READER_INSERT, Data EMUL_CARD_INSERT 2 [0x3B, 0]] \<and>
   emulated_get_atr card_inserted = (replicate 40 0, 2)"
  by (simp add: card_inserted_eq emulated_get_atr_def started_def configured_def card0_def)

text \<open>
  C1, as the code has it.  \<open>pipe_read\<close> takes the event-queue lock, visits the pending
  records in queue order while it holds the lock, calling for each the bus callback of
  its kind and then freeing it, re-initialises the queue to empty after the last
  record, and releases the lock.  Between the lock and the unlock there is no other
  mutex operation, so every callback is called with the lock held.
\<close>
theorem pipe_read_dispatches_under_lock:
  assumes "pipe_read crd = Inr (crd', acts)"
  shows "\<exists>mid. acts = [Lock Event_list_mutex] @ mid @ [Queue_init Event_list, Unlock Event_list_mutex]
     \<and> (\<forall>a\<in>set mid. \<not> is_lock_op a)
     \<and> filter (\<lambda>a. is_callback a \<or> is_free a) mid =
         concat (map (\<lambda>e. dispatch_mapping e @ [Free e]) (event_list crd))
     \<and> under_lock Event_list_mutex False acts = mid @ [Queue_init Event_list]
     \<and> event_list crd' = []"
proof -
  from assms obtain crd1 mid where
    f: "pipe_read_foreach (crd\<lparr>pipe := pipe_drain (pipe crd)\<rparr>) (event_list crd) = Inr (crd1, mid)"
    and c: "crd' = crd1\<lparr>event_list := []\<rparr>"
    and a: "acts = [Lock Event_list_mutex] @ mid @ [Queue_init Event_list, Unlock Event_list_mutex]"
    by (auto simp: pipe_read_def Let_def split: sum.splits prod.splits)
  from pipe_read_foreach_actions [OF f] have
    n: "\<forall>a\<in>set mid. \<not> is_lock_op a" and
    m: "filter (\<lambda>a. is_callback a \<or> is_free a) mid =
         concat (map (\<lambda>e. dispatch_mapping e @ [Free e]) (event_list crd))"
    by simp_all
  have "under_lock Event_list_mutex False acts = mid @ [Queue_init Event_list]"
    using under_lock_no_lock_op [OF n, of Event_list_mutex "[Queue_init Event_list, Unlock Event_list_mutex]"]
    by (simp add: a)
  with a n m c show ?thesis by simp
qed

theorem pipe_read_dispatches_under_lock_witness:
  "pipe_read two_events =
     Inr (card0, [Lock Event_list_mutex, Ccid_attach, Free (Gen EMUL_READER_INSERT),
                  Card_error 6, Free (Error EMUL_ERROR 6),
                  Queue_init Event_list, Unlock Event_list_mutex]) \<and>
   (\<exists>mid. [Lock Event_list_mutex, Ccid_attach, Free (Gen EMUL_READER_INSERT),
                  Card_error 6, Free (Error EMUL_ERROR 6),
                  Queue_init Event_list, Unlock Event_list_mutex] = 
        [Lock Event_list_mutex] @ mid @ [Queue_init Event_list, Unlock Event_list_mutex] \<and>
      filter (\<lambda>a. is_callback a \<or> is_free a) mid =
        [Ccid_attach, Free (Gen EMUL_READER_INSERT), Card_error 6, Free (Error EMUL_ERROR 6)])"
proof -
  have e: "pipe_read two_events =
     Inr (card0, [Lock Event_list_mutex, Ccid_attach, Free (Gen EMUL_READER_INSERT),
                  Card_error 6, Free (Error EMUL_ERROR 6),
                  Queue_init Event_list, Unlock Event_list_mutex])"
    by (simp add: two_events_def card0_def pipe_read_def pipe_read_body_def pipe_drain_def
        DPRINTF_def emul_types Let_def)
  from pipe_read_dispatches_under_lock [OF e] show ?thesis
    using e by (simp add: two_events_def dispatch_mapping_def emul_types)
qed

text \<open>
  C1 as stated fails: the queue is not detached before the iteration and the lock is
  not released before the callbacks.  With one \<open>ReaderInsert\<close> record pending, the attach
  callback is called between the lock and the unlock, and the queue is re-initialised
  after it.
\<close>
theorem callback_under_lock_counterexample:
  "pipe_read (card0\<lparr>event_list := [Gen EMUL_READER_INSERT]\<rparr>) =
     Inr (card0, [Lock Event_list_mutex, Ccid_attach, Free (Gen EMUL_READER_INSERT),
                  Queue_init Event_list, Unlock Event_list_mutex]) \<and>
   filter is_callback (under_lock Event_list_mutex False
     [Lock Event_list_mutex, Ccid_attach, Free (Gen EMUL_READER_INSERT),
      Queue_init Event_list, Unlock Event_list_mutex]) = [Ccid_attach]"
  by (simp add: card0_def pipe_read_def pipe_read_body_def pipe_drain_def
        DPRINTF_def emul_types Let_def)

subsection \<open>The APDU worker\<close>

text \<open>
  C5.  While the reader is absent the APDU worker pushes nothing for a guest request.
  With \<open>card->reader\<close> null, one round of the drain loop on a guest request leaves the
  device state and the receive buffer as they were, so no \<open>ResponseApdu\<close> and no \<open>Error\<close>
  record enters the event queue, and its only actions are the level-1 debug line
  \<open>reader is NULL\<close> (printed when \<open>debug\<close> is at least 1) and the \<open>free\<close> of the request: no
  execute call, no push.  The whole loop on a queue of guest requests returns, has
  gone through every request in queue order in that way, and leaves the state changed
  in nothing but the request queue, which is empty.
\<close>
theorem absent_reader_drops_requests:
  "reader crd = None \<Longrightarrow>
   (ev_type event = EMUL_GUEST_APDU \<longrightarrow>
      handle_apdu_body xfr crd recv event =
        (crd, recv, DPRINTF crd 1 ''reader is NULL'' @ [Free event])) \<and>
   ((\<forall>e\<in>set (guest_apdu_list crd). ev_type e = EMUL_GUEST_APDU) \<longrightarrow>
      handle_apdu_while xfr crd recv =
        (crd\<lparr>guest_apdu_list := []\<rparr>, recv,
         concat (map (\<lambda>e. [Remove_head Guest_apdu_list e] @ DPRINTF crd 1 ''reader is NULL''
                             @ [Free e])
                   (guest_apdu_list crd))))"
  using handle_apdu_while_no_reader [OF refl, of crd xfr recv]
  by (simp add: handle_apdu_body_no_reader)

theorem absent_reader_drops_requests_witness:
  "reader two_requests = None \<and>
   guest_apdu_list two_requests =
     [Data EMUL_GUEST_APDU 2 [0, 0xA4], Data EMUL_GUEST_APDU 1 [0x80]] \<and>
   handle_apdu_body xfr_sw two_requests [] (Data EMUL_GUEST_APDU 2 [0, 0xA4]) =
     (two_requests, [], [Printf ''reader is NULL'', Free (Data EMUL_GUEST_APDU 2 [0, 0xA4])]) \<and>
   handle_apdu_while xfr_sw two_requests [] =
     (two_requests\<lparr>guest_apdu_list := []\<rparr>, [],
      [Remove_head Guest_apdu_list (Data EMUL_GUEST_APDU 2 [0, 0xA4]), Printf ''reader is NULL'',
       Free (Data EMUL_GUEST_APDU 2 [0, 0xA4]),
       Remove_head Guest_apdu_list (Data EMUL_GUEST_APDU 1 [0x80]), Printf ''reader is NULL'',
       Free (Data EMUL_GUEST_APDU 1 [0x80])])"
  using absent_reader_drops_requests [of two_requests "Data EMUL_GUEST_APDU 2 [0, 0xA4]" xfr_sw "[]"]
  by (simp add: two_requests_def submit_all_def emulated_apdu_from_guest_def card0_def DPRINTF_def
      Let_def)

text \<open>
  C6.  A guest request executed against a present reader.  The worker calls the execute
  function once, with the request's bytes and a receive capacity of \<open>APDU_BUF_SIZE\<close> (270),
  and then pushes exactly one record to the event queue: when the status is
  \<open>VREADER_OK\<close>, a \<open>ResponseApdu\<close> record whose length is the returned length and whose
  bytes are the first that many bytes of the receive buffer; for any other status, an
  \<open>Error\<close> record carrying that status.  The execute call is given the capacity and is
  taken to report a length between 0 and that capacity; the record is then within the
  270 bytes.
\<close>
theorem execute_result_is_pushed:
  assumes "reader crd = Some r" and "ev_type event = EMUL_GUEST_APDU"
    and "xfr r (ev_data event) (ev_len event) recv (of_nat APDU_BUF_SIZE) = (status, recv', n')"
    and "0 \<le> sint n'" and "sint n' \<le> int APDU_BUF_SIZE"
  shows "\<exists>pushed.
     pushed = (if status = VREADER_OK then Data EMUL_RESPONSE_APDU n' (take (unat n') recv')
               else Error EMUL_ERROR (ucast status)) \<and>
     handle_apdu_body xfr crd recv event =
       (fst (emulated_push_event crd pushed), recv',
        [Xfr_bytes r (ev_data event) (ev_len event) (of_nat APDU_BUF_SIZE)]
        @ DPRINTF crd 2 ''got back apdu of length %d''
        @ snd (emulated_push_event crd pushed) @ [Free event]) \<and>
     event_list (fst (handle_apdu_body xfr crd recv event)) = event_list crd @ [pushed] \<and>
     unat (ev_len pushed) \<le> APDU_BUF_SIZE \<and> length (ev_data pushed) \<le> APDU_BUF_SIZE"
proof -
  have n: "unat n' \<le> APDU_BUF_SIZE"
    using assms(4,5) by (rule sint_nonneg_unat)
  show ?thesis
    using assms(1-3) n
    by (simp add: handle_apdu_body_def emulated_push_response_apdu_def emulated_push_error_def
        emulated_push_data_type_def emulated_push_event_def Let_def case_prod_beta
        min.coboundedI2)
qed

theorem execute_result_is_pushed_witness:
  "reader (card0\<lparr>reader := Some 1\<rparr>) = Some 1 \<and>
   xfr_sw 1 [0, 0xA4] 2 (replicate 270 0) (of_nat APDU_BUF_SIZE) =
     (VREADER_OK, [0x90, 0] @ replicate 268 0, 2) \<and>
   event_list (fst (handle_apdu_body xfr_sw (card0\<lparr>reader := Some 1\<rparr>) (replicate 270 0)
                      (Data EMUL_GUEST_APDU 2 [0, 0xA4]))) =
     [Data EMUL_RESPONSE_APDU 2 [0x90, 0]] \<and>
   xfr_sw 1 [] 0 (replicate 270 0) (of_nat APDU_BUF_SIZE) = (2, replicate 270 0, 270) \<and>
   event_list (fst (handle_apdu_body xfr_sw (card0\<lparr>reader := Some 1\<rparr>) (replicate 270 0)
                      (Data EMUL_GUEST_APDU 0 []))) =
     [Error EMUL_ERROR 2]"
  using execute_result_is_pushed [of "card0\<lparr>reader := Some 1\<rparr>" 1
          "Data EMUL_GUEST_APDU 2 [0, 0xA4]" xfr_sw "replicate 270 0" VREADER_OK
          "[0x90, 0] @ replicate 268 0" 2]
        execute_result_is_pushed [of "card0\<lparr>reader := Some 1\<rparr>" 1
          "Data EMUL_GUEST_APDU 0 []" xfr_sw "replicate 270 0" 2 "replicate 270 0" 270]
  by (simp add: card0_def emul_types xfr_sw_def memcpy_def APDU_BUF_SIZE_def VREADER_OK_def
      emulated_push_event_def pipe_write_def)

text \<open>
  C9, as the code has it.  N requests submitted through \<open>emulated_apdu_from_guest\<close> to
  an empty request queue and then drained while a reader is present give exactly N
  execute calls, one per request and in submission order, each with the bytes and the
  length of its request, and the queue is empty afterwards.  (With no reader the drain
  makes no execute call: see C5 and the counterexample below.)
\<close>
theorem drain_executes_each_in_order:
  assumes "guest_apdu_list crd = []" and "reader crd = Some r"
  shows "xfr_calls (snd (snd (handle_apdu_while xfr (submit_all crd reqs) recv))) =
           map (\<lambda>(apdu, len). Xfr_bytes r (take (unat len) apdu) len (of_nat APDU_BUF_SIZE)) reqs
         \<and> length (xfr_calls (snd (snd (handle_apdu_while xfr (submit_all crd reqs) recv))))
             = length reqs
         \<and> guest_apdu_list (fst (handle_apdu_while xfr (submit_all crd reqs) recv)) = []"
proof -
  let ?q = "map (\<lambda>(apdu, len). Data EMUL_GUEST_APDU len (take (unat len) apdu)) reqs"
  have q: "guest_apdu_list (submit_all crd reqs) = ?q"
    using assms(1) by (simp add: submit_all_queue)
  have r: "reader (submit_all crd reqs) = Some r"
    using assms(2) by (simp add: submit_all_reader)
  have t: "\<forall>e\<in>set ?q. ev_type e = EMUL_GUEST_APDU"
    by (auto split: prod.splits)
  have m: "map (\<lambda>e. Xfr_bytes r (ev_data e) (ev_len e) (of_nat APDU_BUF_SIZE)) ?q =
           map (\<lambda>(apdu, len). Xfr_bytes r (take (unat len) apdu) len (of_nat APDU_BUF_SIZE)) reqs"
    by (simp add: comp_def split_def)
  from handle_apdu_while_xfr_calls [OF q r t, of xfr recv] m show ?thesis
    by simp
qed

theorem drain_executes_each_in_order_witness:
  "guest_apdu_list (card0\<lparr>reader := Some 1\<rparr>) = [] \<and>
   reader (card0\<lparr>reader := Some 1\<rparr>) = Some 1 \<and>
   xfr_calls (snd (snd (handle_apdu_while xfr_sw
       (submit_all (card0\<lparr>reader := Some 1\<rparr>) [([0, 0xA4], 2), ([0x80, 0xCA, 0x01], 3)]) []))) =
     [Xfr_bytes 1 [0, 0xA4] 2 270, Xfr_bytes 1 [0x80, 0xCA, 0x01] 3 270]"
  using drain_executes_each_in_order [of "card0\<lparr>reader := Some 1\<rparr>" 1 xfr_sw
          "[([0, 0xA4], 2), ([0x80, 0xCA, 0x01], 3)]" "[]"]
  by (simp add: card0_def APDU_BUF_SIZE_def)

text \<open>
  C9 as stated fails when no reader is attached: one request is submitted and drained,
  and no execute call is made.
\<close>
theorem drain_without_reader_counterexample:
  "xfr_calls (snd (snd (handle_apdu_while xfr_sw (submit_all card0 [([0, 0xA4], 2)]) []))) = []"
  by (simp add: submit_all_def emulated_apdu_from_guest_def card0_def handle_apdu_while_Nil
      handle_apdu_while_Cons handle_apdu_body_def xfr_calls_def emul_types DPRINTF_def Let_def)

subsection \<open>The event-source worker\<close>

text \<open>
  C2.  The claim: a notification for a reader other than the one held (and that is not
  a reader insertion) is skipped and the worker goes on to wait for the next one; only
  the quit notification ends the thread.  The code does not do that: after the debug
  line \<open>EVENT ignored\<close> it leaves the loop with \<open>break\<close>, and the thread function returns.
  Here reader 1 is held and \<open>debug\<close> is 2; a card removal is notified for reader 2 and
  then one for reader 1.  The thread prints \<open>EVENT ignored\<close> and returns at the first
  notification: the second is never taken, and no \<open>CardRemove\<close> record is pushed.
\<close>
theorem event_thread_returns_on_foreign_reader:
  "event_thread power_on_3b (reader_attached\<lparr>debug := 2\<rparr>) (replicate 40 0)
     [Some \<lparr>vtype = VEVENT_CARD_REMOVE, vreader = Some 2\<rparr>,
      Some \<lparr>vtype = VEVENT_CARD_REMOVE, vreader = Some 1\<rparr>] =
   (reader_attached\<lparr>debug := 2\<rparr>, [Printf ''EVENT ignored''], Return,
    [Some \<lparr>vtype = VEVENT_CARD_REMOVE, vreader = Some 1\<rparr>])"
  by (simp add: reader_attached_eq event_thread_round_def DPRINTF_def started_def configured_def
      card0_def)

subsection \<open>Initialisation\<close>

text \<open>
  C8.  When the certificates backend is selected and one of \<open>cert1\<close>, \<open>cert2\<close>, \<open>cert3\<close> is
  missing, or when a backend name is given that is neither \<open>certificates\<close> nor
  \<open>nss-emulated\<close>, \<open>emulated_initfn\<close> returns -1 and has created no thread, whatever the
  operating system and libcacard answer.  And when \<open>emulated_initfn\<close> returns 0 the
  configuration was a valid one: the backend \<open>nss-emulated\<close>, or the backend
  \<open>certificates\<close> with all three certificates.
\<close>
theorem bad_configuration_fails_before_threads:
  "(backend crd = Some b \<and>
    (b = BACKEND_CERTIFICATES \<and> (cert1 crd = None \<or> cert2 crd = None \<or> cert3 crd = None)
     \<or> b \<noteq> BACKEND_CERTIFICATES \<and> b \<noteq> BACKEND_NSS_EMULATED) \<longrightarrow>
    (\<exists>crd' acts. emulated_initfn env crd = Inr (- 1, crd', acts) \<and>
       (\<forall>f. Thread_create f \<notin> set acts)))
   \<and> (emulated_initfn env crd = Inr (0, crd'', acts'') \<longrightarrow>
        backend crd = Some BACKEND_NSS_EMULATED
        \<or> backend crd = Some BACKEND_CERTIFICATES \<and> cert1 crd \<noteq> None \<and> cert2 crd \<noteq> None
           \<and> cert3 crd \<noteq> None)"
  by (auto simp: emulated_initfn_def init_pipe_signaling_def DPRINTF_def Let_def
      split: option.splits if_splits prod.splits)

theorem bad_configuration_fails_before_threads_witness:
  "backend two_certs = Some BACKEND_CERTIFICATES \<and> cert2 two_certs = None \<and>
   emulated_initfn env_ok two_certs =
     Inr (- 1, two_certs\<lparr>pipe := \<lparr>pending = 0, capacity = 65536\<rparr>\<rparr>,
          [Queue_init Event_list, Queue_init Guest_apdu_list, Pipe_create,
           Printf ''%s: you must provide all three certs for certificates backend'']) \<and>
   emulated_initfn env_ok configured =
     Inr (0, started,
          [Queue_init Event_list, Queue_init Guest_apdu_list, Pipe_create, Vcard_emul_init None,
           Thread_create Event_thread, Thread_create Handle_apdu_thread]) \<and>
   backend configured = Some BACKEND_NSS_EMULATED"
  using bad_configuration_fails_before_threads [of two_certs BACKEND_CERTIFICATES env_ok]
    bad_configuration_fails_before_threads [of configured BACKEND_NSS_EMULATED env_ok started]
    emulated_initfn_started
  by (auto simp: two_certs_def configured_def card0_def emulated_initfn_def
      init_pipe_signaling_def env_ok_def Let_def)

end
